theory Spec2Isabelle
  imports Main
begin

section \<open>Data model (types/index.ts)\<close>

text \<open>
  The records of the source share field names (\<^verbatim>\<open>id\<close>, \<^verbatim>\<open>version\<close>,
  \<^verbatim>\<open>updatedAt\<close>, ...), so each field carries the prefix of its record here:
  \<open>el_\<close> for an element, \<open>p_\<close> for a partial element, \<open>cv_\<close> for a canvas,
  \<open>ps_\<close> for a pending save, \<open>conn_\<close> for a connection.

  The error codes of \<^verbatim>\<open>ERROR_CODES\<close>, one constructor per key, in the order of the
  source.
\<close>

datatype ErrorCode =
    ELEMENT_NOT_FOUND
  | INVALID_COORDINATES
  | INVALID_TYPE
  | VALIDATION_ERROR
  | ELEMENT_LOCKED
  | CONFIRMATION_REQUIRED
  | INVALID_JSON
  | INVALID_ELEMENTS
  | INSUFFICIENT_ELEMENTS
  | GROUP_NOT_FOUND
  | RESOURCE_NOT_FOUND
  | ACCESS_DENIED
  | INTERNAL_ERROR
  | INVALID_MESSAGE
  | SYNC_FAILED
  | CONNECTION_LIMIT

datatype Source = mcp | frontend

record Binding =
  binding_id :: string
  binding_type :: string

text \<open>
  \<^verbatim>\<open>ServerElement\<close>. The bookkeeping fields every operation of the canvas manager reads
  or writes are modelled; the styling fields and the type-specific geometry
  (\<^verbatim>\<open>points\<close>, \<^verbatim>\<open>roundness\<close>, \<^verbatim>\<open>seed\<close>, ...) are copied through by the spreads of
  the source and never read by the manager, so they are left out. Times are the
  millisecond readings of \<^verbatim>\<open>Date.now()\<close>; the ISO strings of the source are renderings of
  the same readings. A field that is \<^verbatim>\<open>undefined\<close> at run time in a required position is
  represented by the falsy value of its type (\<^verbatim>\<open>''\<close>, \<^verbatim>\<open>0\<close>, \<^verbatim>\<open>false\<close>), which every
  truthiness test of the modelled code treats alike.
\<close>

record ServerElement =
  el_id :: string
  el_type :: "string option"
  el_x :: "int option"
  el_y :: "int option"
  el_version :: int
  el_versionNonce :: int
  el_isDeleted :: bool
  el_locked :: bool
  el_groupIds :: "string list"
  el_boundElements :: "Binding list option"
  el_createdAt :: int
  el_updatedAt :: int
  el_source :: "Source option"

text \<open>\<^verbatim>\<open>Partial<ServerElement>\<close>: every field may be absent.\<close>

record PartialElement =
  p_id :: "string option"
  p_type :: "string option"
  p_x :: "int option"
  p_y :: "int option"
  p_version :: "int option"
  p_versionNonce :: "int option"
  p_isDeleted :: "bool option"
  p_locked :: "bool option"
  p_groupIds :: "string list option"
  p_boundElements :: "Binding list option option"
  p_createdAt :: "int option"
  p_updatedAt :: "int option"
  p_source :: "Source option"

definition emptyPartial :: PartialElement where
  "emptyPartial = \<lparr> p_id = None, p_type = None, p_x = None, p_y = None, p_version = None,
     p_versionNonce = None, p_isDeleted = None, p_locked = None, p_groupIds = None,
     p_boundElements = None, p_createdAt = None, p_updatedAt = None, p_source = None \<rparr>"

record Canvas =
  cv_id :: string
  cv_elements :: "ServerElement list"
  cv_appState :: "(string \<times> string) list"
  cv_createdAt :: int
  cv_updatedAt :: int
  cv_version :: int

section \<open>CanvasStorage (services/storage.ts)\<close>

text \<open>
  The file system is a map from paths to file contents. A snapshot file holds
  \<^verbatim>\<open>JSON.stringify(canvas)\<close> and is read back with \<^verbatim>\<open>JSON.parse\<close>; the content is
  modelled by the canvas value itself (the round trip is the identity on canvases).
\<close>

record PendingSave =
  ps_canvas :: Canvas
  ps_promises :: "nat list"
  ps_rejects :: "nat list"
  ps_timeoutId :: "int option"

text \<open>
  \<^verbatim>\<open>promises\<close> and \<^verbatim>\<open>rejects\<close> hold the resolve and reject callbacks of the callers;
  a callback is identified by the token of its caller. A timer handle is identified by the
  time at which the timer becomes due.
\<close>

record CanvasStorage =
  dataDir :: string
  lastSave :: "string \<rightharpoonup> int"
  pendingSaves :: "string \<rightharpoonup> PendingSave"
  files :: "string \<rightharpoonup> Canvas"

definition saveThrottleMs :: int where
  "saveThrottleMs = 1000"

definition newStorage :: "string \<Rightarrow> CanvasStorage" where
  "newStorage dir = \<lparr> dataDir = dir, lastSave = Map.empty, pendingSaves = Map.empty,
     files = Map.empty \<rparr>"

text \<open>The characters kept by \<^verbatim>\<open>canvasId.replace(/[^a-zA-Z0-9-_]/g, '')\<close>.\<close>

definition keptChar :: "char \<Rightarrow> bool" where
  "keptChar c \<longleftrightarrow>
     c \<in> set ''abcdefghijklmnopqrstuvwxyzABCDEFGHIJKLMNOPQRSTUVWXYZ0123456789-_''"

definition sanitize :: "string \<Rightarrow> string" where
  "sanitize canvasId = filter keptChar canvasId"

text \<open>
  \<^verbatim>\<open>path.join(dataDir, file)\<close> for a file name without separators: the directory, a
  separator, the name.
\<close>

definition path_join :: "string \<Rightarrow> string \<Rightarrow> string" where
  "path_join dir name = dir @ ''/'' @ name"

definition getCanvasPath :: "CanvasStorage \<Rightarrow> string \<Rightarrow> string" where
  "getCanvasPath st canvasId =
     path_join (dataDir st) (''canvas-'' @ sanitize canvasId @ ''.json'')"

text \<open>
  \<^verbatim>\<open>saveCanvas\<close>, the synchronous body of the promise executor. \<open>caller\<close> is the token
  of the returned promise, \<open>now\<close> the reading of \<^verbatim>\<open>Date.now()\<close>. Cancelling the
  previous timer and arming a new one is the overwrite of \<^verbatim>\<open>timeoutId\<close>.
\<close>

definition saveCanvas :: "CanvasStorage \<Rightarrow> Canvas \<Rightarrow> nat \<Rightarrow> int \<Rightarrow> CanvasStorage" where
  "saveCanvas st canvas caller now =
     (let pending0 = (case pendingSaves st (cv_id canvas) of
                        None \<Rightarrow> \<lparr> ps_canvas = canvas, ps_promises = [], ps_rejects = [],
                                  ps_timeoutId = None \<rparr>
                      | Some p \<Rightarrow> p);
          lastSaveTime = (case lastSave st (cv_id canvas) of
                            None \<Rightarrow> 0
                          | Some t \<Rightarrow> (if t = 0 then 0 else t));
          delay = max 0 (saveThrottleMs - (now - lastSaveTime));
          pending = pending0 \<lparr> ps_canvas := canvas,
                                ps_promises := ps_promises pending0 @ [caller],
                                ps_rejects := ps_rejects pending0 @ [caller],
                                ps_timeoutId := Some (now + delay) \<rparr>
      in st \<lparr> pendingSaves := (pendingSaves st)(cv_id canvas \<mapsto> pending) \<rparr>)"

text \<open>
  What the file system does during one \<^verbatim>\<open>executeSave\<close>: nothing goes wrong, or
  \<^verbatim>\<open>fs.writeFile\<close> throws (having left a temporary file behind or not), or
  \<^verbatim>\<open>fs.rename\<close> throws. \<open>io_unlinkFails\<close> says whether the clean-up
  \<^verbatim>\<open>fs.unlink(tempPath)\<close> throws for a reason other than a missing file, and
  \<open>io_now\<close> is the reading of \<^verbatim>\<open>Date.now()\<close> after the rename.
\<close>

datatype FsFault = NoFault | WriteFileFails bool | RenameFails

record IoEnv =
  io_fault :: FsFault
  io_unlinkFails :: bool
  io_now :: int

datatype Settlement = Resolved nat | Rejected nat

text \<open>
  The report of one physical write: the canvas handed to \<^verbatim>\<open>fs.writeFile\<close> and the
  callbacks invoked afterwards, in order.
\<close>

record SaveReport =
  written :: Canvas
  settled :: "Settlement list"

definition unlinkTemp :: "(string \<rightharpoonup> Canvas) \<Rightarrow> string \<Rightarrow> bool \<Rightarrow> (string \<rightharpoonup> Canvas)" where
  "unlinkTemp fs tempPath fails = (if fails then fs else fs(tempPath := None))"

definition executeSave ::
  "CanvasStorage \<Rightarrow> string \<Rightarrow> IoEnv \<Rightarrow> CanvasStorage \<times> SaveReport option" where
  "executeSave st canvasId io =
     (case pendingSaves st canvasId of
        None \<Rightarrow> (st, None)
      | Some pending \<Rightarrow>
          (let canvas = ps_canvas pending;
               st1 = st \<lparr> pendingSaves := (pendingSaves st)(canvasId := None) \<rparr>;
               filePath = getCanvasPath st1 (cv_id canvas);
               tempPath = filePath @ ''.tmp''
           in case io_fault io of
                NoFault \<Rightarrow>
                  (st1 \<lparr> files := ((files st1)(tempPath := None))(filePath \<mapsto> canvas),
                         lastSave := (lastSave st1)(cv_id canvas \<mapsto> io_now io) \<rparr>,
                   Some \<lparr> written = canvas, settled = map Resolved (ps_promises pending) \<rparr>)
              | WriteFileFails left \<Rightarrow>
                  (st1 \<lparr> files := unlinkTemp
                           (if left then (files st1)(tempPath \<mapsto> canvas) else files st1)
                           tempPath (io_unlinkFails io) \<rparr>,
                   Some \<lparr> written = canvas, settled = map Rejected (ps_rejects pending) \<rparr>)
              | RenameFails \<Rightarrow>
                  (st1 \<lparr> files := unlinkTemp ((files st1)(tempPath \<mapsto> canvas))
                           tempPath (io_unlinkFails io) \<rparr>,
                   Some \<lparr> written = canvas, settled = map Rejected (ps_rejects pending) \<rparr>)))"

text \<open>
  \<^verbatim>\<open>loadCanvas\<close>: the parsed snapshot, \<^verbatim>\<open>null\<close> when the file does not exist
  (\<^verbatim>\<open>ENOENT\<close>), or the exception of any other read failure.
\<close>

datatype LoadOutcome = LoadNull | LoadFound Canvas | LoadThrows

definition loadCanvas :: "CanvasStorage \<Rightarrow> string \<Rightarrow> bool \<Rightarrow> LoadOutcome" where
  "loadCanvas st canvasId readFails =
     (if readFails then LoadThrows
      else case files st (getCanvasPath st canvasId) of
             None \<Rightarrow> LoadNull
           | Some canvas \<Rightarrow> LoadFound canvas)"

text \<open>One save cycle that completes: the call, then the timer running the write.\<close>

definition savedNow :: "CanvasStorage \<Rightarrow> Canvas \<Rightarrow> nat \<Rightarrow> int \<Rightarrow> IoEnv \<Rightarrow> CanvasStorage" where
  "savedNow st canvas caller now io =
     fst (executeSave (saveCanvas st canvas caller now) (cv_id canvas) io)"


text \<open>
  The events of a storage run: a call of \<^verbatim>\<open>saveCanvas\<close> (canvas, caller token, time
  of the call) and the firing of the timer armed for a canvas id (time of firing, behaviour
  of the file system during the write). A timer fires only if it is armed and due; a
  cleared timer never fires.
\<close>

datatype StorageEvent = SaveCall Canvas nat int | TimerFires string int IoEnv

definition storageStep ::
  "CanvasStorage \<Rightarrow> StorageEvent \<Rightarrow> (CanvasStorage \<times> SaveReport list) option" where
  "storageStep st ev =
     (case ev of
        SaveCall canvas caller now \<Rightarrow> Some (saveCanvas st canvas caller now, [])
      | TimerFires canvasId t io \<Rightarrow>
          (case pendingSaves st canvasId of
             None \<Rightarrow> None
           | Some p \<Rightarrow>
               (case ps_timeoutId p of
                  None \<Rightarrow> None
                | Some due \<Rightarrow>
                    if due \<le> t
                    then (case executeSave st canvasId io of
                            (st', None) \<Rightarrow> Some (st', [])
                          | (st', Some r) \<Rightarrow> Some (st', [r]))
                    else None)))"

fun runStorage ::
  "CanvasStorage \<Rightarrow> StorageEvent list \<Rightarrow> (CanvasStorage \<times> SaveReport list) option" where
  "runStorage st [] = Some (st, [])"
| "runStorage st (ev # evs) =
     (case storageStep st ev of
        None \<Rightarrow> None
      | Some (st1, rs1) \<Rightarrow>
          (case runStorage st1 evs of
             None \<Rightarrow> None
           | Some (st2, rs2) \<Rightarrow> Some (st2, rs1 @ rs2)))"

section \<open>RateLimiter (services/rateLimiter.ts)\<close>

text \<open>The field \<^verbatim>\<open>identifier\<close> (a name for the logs) is \<open>limiterName\<close> here.\<close>

record RateLimitConfig =
  windowMs :: int
  maxRequests :: int
  limiterName :: string

text \<open>
  \<^verbatim>\<open>checkLimit\<close>. The state is the map \<^verbatim>\<open>requests\<close> from keys to their timestamps;
  \<open>now\<close> is the reading of \<^verbatim>\<open>Date.now()\<close>. The pruned list is stored back in both
  branches, as the source assigns \<^verbatim>\<open>entry.timestamps\<close> before the test.
\<close>

definition checkLimit ::
  "RateLimitConfig \<Rightarrow> (string \<rightharpoonup> int list) \<Rightarrow> string \<Rightarrow> int
     \<Rightarrow> bool \<times> (string \<rightharpoonup> int list)" where
  "checkLimit config requests key now =
     (case requests key of
        None \<Rightarrow> (True, requests(key \<mapsto> [now]))
      | Some timestamps \<Rightarrow>
          (let windowStart = now - windowMs config;
               kept = filter (\<lambda>ts. ts > windowStart) timestamps
           in if int (length kept) \<ge> maxRequests config
              then (False, requests(key \<mapsto> kept))
              else (True, requests(key \<mapsto> kept @ [now]))))"

text \<open>Successive calls for one key at the given times; the answers, in order.\<close>

fun checkLimits ::
  "RateLimitConfig \<Rightarrow> (string \<rightharpoonup> int list) \<Rightarrow> string \<Rightarrow> int list
     \<Rightarrow> bool list \<times> (string \<rightharpoonup> int list)" where
  "checkLimits config requests key [] = ([], requests)"
| "checkLimits config requests key (now # rest) =
     (case checkLimit config requests key now of
        (r, requests1) \<Rightarrow>
          (case checkLimits config requests1 key rest of
             (rs, requests2) \<Rightarrow> (r # rs, requests2)))"

section \<open>WSManager (services/wsManager.ts)\<close>

text \<open>
  A connection as the hub sees it. \<open>conn_sendThrows\<close> is the behaviour of the socket:
  whether \<^verbatim>\<open>ws.send\<close> throws on it. The registry is a JavaScript \<^verbatim>\<open>Map\<close>, iterated
  in insertion order: an association list.
\<close>

record WebSocketConnection =
  conn_canvasId :: string
  conn_readyState :: nat
  conn_sendThrows :: bool
  conn_connectedAt :: int
  conn_lastActivity :: int

type_synonym Connections = "(string \<times> WebSocketConnection) list"

text \<open>
  \<^verbatim>\<open>removeConnection\<close>: a no-op for an unknown id; otherwise the socket is closed if it
  is still open (an effect on the socket that leaves the registry alone) and the entry is
  deleted.
\<close>

definition removeConnection :: "Connections \<Rightarrow> string \<Rightarrow> Connections" where
  "removeConnection conns connectionId =
     (case map_of conns connectionId of
        None \<Rightarrow> conns
      | Some connection \<Rightarrow> filter (\<lambda>entry. fst entry \<noteq> connectionId) conns)"

definition updateLastActivity :: "Connections \<Rightarrow> string \<Rightarrow> int \<Rightarrow> Connections" where
  "updateLastActivity conns connectionId now =
     map (\<lambda>entry. if fst entry = connectionId
                   then (fst entry, (snd entry) \<lparr> conn_lastActivity := now \<rparr>)
                   else entry) conns"

text \<open>
  The loop of \<^verbatim>\<open>broadcastToCanvas\<close> over the entries still to visit. The iteration of
  the source is live, so each id is looked up in the current registry. The result is the
  registry after the loop and the payloads handed to \<^verbatim>\<open>ws.send\<close> without an exception,
  with the id of the receiving connection, in order.
\<close>

fun broadcastLoop ::
  "string list \<Rightarrow> Connections \<Rightarrow> string \<Rightarrow> string \<Rightarrow> string option \<Rightarrow> int
     \<Rightarrow> Connections \<times> (string \<times> string) list" where
  "broadcastLoop [] conns canvasId messageStr excludeConnectionId now = (conns, [])"
| "broadcastLoop (connId # rest) conns canvasId messageStr excludeConnectionId now =
     (case map_of conns connId of
        None \<Rightarrow> broadcastLoop rest conns canvasId messageStr excludeConnectionId now
      | Some connection \<Rightarrow>
          if conn_canvasId connection \<noteq> canvasId \<or> Some connId = excludeConnectionId
          then broadcastLoop rest conns canvasId messageStr excludeConnectionId now
          else if conn_readyState connection \<noteq> 1
          then broadcastLoop rest conns canvasId messageStr excludeConnectionId now
          else if conn_sendThrows connection
          then broadcastLoop rest (removeConnection conns connId) canvasId messageStr
                 excludeConnectionId now
          else (case broadcastLoop rest (updateLastActivity conns connId now) canvasId
                       messageStr excludeConnectionId now of
                  (conns', sent) \<Rightarrow> (conns', (connId, messageStr) # sent)))"

text \<open>
  \<^verbatim>\<open>broadcastToCanvas\<close>; \<open>stringify\<close> is \<^verbatim>\<open>JSON.stringify\<close> on messages, applied
  before the loop.
\<close>

definition broadcastToCanvas ::
  "('msg \<Rightarrow> string) \<Rightarrow> Connections \<Rightarrow> string \<Rightarrow> 'msg \<Rightarrow> string option \<Rightarrow> int
     \<Rightarrow> Connections \<times> (string \<times> string) list" where
  "broadcastToCanvas stringify conns canvasId message excludeConnectionId now =
     (let messageStr = stringify message
      in broadcastLoop (map fst conns) conns canvasId messageStr excludeConnectionId now)"

text \<open>The connections a broadcast is meant for.\<close>

definition eligible :: "string \<Rightarrow> string option \<Rightarrow> string \<times> WebSocketConnection \<Rightarrow> bool" where
  "eligible canvasId excludeConnectionId entry \<longleftrightarrow>
     conn_canvasId (snd entry) = canvasId \<and> Some (fst entry) \<noteq> excludeConnectionId
     \<and> conn_readyState (snd entry) = 1"


section \<open>Element helpers (utils/validation.ts)\<close>

text \<open>
  \<^verbatim>\<open>validateAndFixBindings\<close>: a binding is kept if it has an id and a type, the id is
  the id of an element of the list, and the type is \<^verbatim>\<open>text\<close> or \<^verbatim>\<open>arrow\<close>. A
  \<^verbatim>\<open>null\<close> list of bindings is left alone.
\<close>

definition keepBinding :: "ServerElement list \<Rightarrow> Binding \<Rightarrow> bool" where
  "keepBinding elements binding \<longleftrightarrow>
     binding_id binding \<noteq> [] \<and> binding_type binding \<noteq> []
     \<and> binding_id binding \<in> el_id ` set elements
     \<and> binding_type binding \<in> {''text'', ''arrow''}"

definition validateAndFixBindings :: "ServerElement list \<Rightarrow> ServerElement list" where
  "validateAndFixBindings elements =
     map (\<lambda>element.
            case el_boundElements element of
              None \<Rightarrow> element
            | Some bindings \<Rightarrow>
                element \<lparr> el_boundElements := Some (filter (keepBinding elements) bindings) \<rparr>)
         elements"

text \<open>
  \<^verbatim>\<open>ensureExcalidrawProperties\<close> on the modelled fields: the spread of the defaults
  under the element gives \<^verbatim>\<open>locked\<close> its default \<^verbatim>\<open>false\<close>, and \<^verbatim>\<open>groupIds\<close> and
  \<^verbatim>\<open>boundElements\<close> fall back to \<^verbatim>\<open>[]\<close> and \<^verbatim>\<open>null\<close>.
\<close>

definition ensureExcalidrawProperties :: "PartialElement \<Rightarrow> ServerElement" where
  "ensureExcalidrawProperties element =
     \<lparr> el_id = (case p_id element of Some i \<Rightarrow> i | None \<Rightarrow> []),
       el_type = p_type element,
       el_x = p_x element,
       el_y = p_y element,
       el_version = (case p_version element of Some v \<Rightarrow> v | None \<Rightarrow> 0),
       el_versionNonce = (case p_versionNonce element of Some v \<Rightarrow> v | None \<Rightarrow> 0),
       el_isDeleted = (case p_isDeleted element of Some d \<Rightarrow> d | None \<Rightarrow> False),
       el_locked = (case p_locked element of Some l \<Rightarrow> l | None \<Rightarrow> False),
       el_groupIds = (case p_groupIds element of Some g \<Rightarrow> g | None \<Rightarrow> []),
       el_boundElements = (case p_boundElements element of Some (Some b) \<Rightarrow> Some b | _ \<Rightarrow> None),
       el_createdAt = (case p_createdAt element of Some t \<Rightarrow> t | None \<Rightarrow> 0),
       el_updatedAt = (case p_updatedAt element of Some t \<Rightarrow> t | None \<Rightarrow> 0),
       el_source = p_source element \<rparr>"

definition addServerMetadata :: "PartialElement \<Rightarrow> Source \<Rightarrow> int \<Rightarrow> ServerElement" where
  "addServerMetadata element source now =
     (ensureExcalidrawProperties element)
       \<lparr> el_createdAt := now, el_updatedAt := now, el_source := Some source \<rparr>"

definition updateServerMetadata :: "ServerElement \<Rightarrow> Source \<Rightarrow> int \<Rightarrow> ServerElement" where
  "updateServerMetadata element source now =
     element \<lparr> el_updatedAt := now, el_source := Some source \<rparr>"

text \<open>The spread \<^verbatim>\<open>{...existingElement, ...updates}\<close>: a present field of the payload wins.\<close>

definition spreadUpdates :: "ServerElement \<Rightarrow> PartialElement \<Rightarrow> ServerElement" where
  "spreadUpdates existing updates =
     \<lparr> el_id = (case p_id updates of Some i \<Rightarrow> i | None \<Rightarrow> el_id existing),
       el_type = (case p_type updates of Some t \<Rightarrow> Some t | None \<Rightarrow> el_type existing),
       el_x = (case p_x updates of Some v \<Rightarrow> Some v | None \<Rightarrow> el_x existing),
       el_y = (case p_y updates of Some v \<Rightarrow> Some v | None \<Rightarrow> el_y existing),
       el_version = (case p_version updates of Some v \<Rightarrow> v | None \<Rightarrow> el_version existing),
       el_versionNonce =
         (case p_versionNonce updates of Some v \<Rightarrow> v | None \<Rightarrow> el_versionNonce existing),
       el_isDeleted = (case p_isDeleted updates of Some d \<Rightarrow> d | None \<Rightarrow> el_isDeleted existing),
       el_locked = (case p_locked updates of Some l \<Rightarrow> l | None \<Rightarrow> el_locked existing),
       el_groupIds = (case p_groupIds updates of Some g \<Rightarrow> g | None \<Rightarrow> el_groupIds existing),
       el_boundElements =
         (case p_boundElements updates of Some b \<Rightarrow> b | None \<Rightarrow> el_boundElements existing),
       el_createdAt = (case p_createdAt updates of Some t \<Rightarrow> t | None \<Rightarrow> el_createdAt existing),
       el_updatedAt = (case p_updatedAt updates of Some t \<Rightarrow> t | None \<Rightarrow> el_updatedAt existing),
       el_source = (case p_source updates of Some s \<Rightarrow> Some s | None \<Rightarrow> el_source existing) \<rparr>"

section \<open>CanvasManager (services/canvasManager.ts)\<close>

text \<open>
  The two \<^verbatim>\<open>Map\<close>s of the manager are association lists in insertion order:
  \<^verbatim>\<open>Map.set\<close> overwrites in place or appends, \<^verbatim>\<open>Map.delete\<close> removes the entry.
\<close>

fun map_set :: "'k \<Rightarrow> 'v \<Rightarrow> ('k \<times> 'v) list \<Rightarrow> ('k \<times> 'v) list" where
  "map_set k v [] = [(k, v)]"
| "map_set k v (entry # m) =
     (if fst entry = k then (k, v) # m else entry # map_set k v m)"

definition map_delete :: "'k \<Rightarrow> ('k \<times> 'v) list \<Rightarrow> ('k \<times> 'v) list" where
  "map_delete k m = filter (\<lambda>entry. fst entry \<noteq> k) m"

record CanvasManager =
  canvases :: "(string \<times> Canvas) list"
  accessOrder :: "(string \<times> int) list"

definition MAX_ELEMENTS :: nat where
  "MAX_ELEMENTS = 10000"

definition MAX_CANVASES :: nat where
  "MAX_CANVASES = 100"

text \<open>
  What a call meets outside the manager: the readings of \<^verbatim>\<open>Date.now()\<close> in
  \<^verbatim>\<open>evictLRU\<close>, \<^verbatim>\<open>createNewCanvas\<close>, \<^verbatim>\<open>markAccessed\<close> and the body of the
  operation, the id drawn by \<^verbatim>\<open>randomId()\<close>, the outcome of
  \<^verbatim>\<open>storage.loadCanvas\<close>, and whether the awaited \<^verbatim>\<open>storage.saveCanvas\<close> promises
  resolve (the one for a freshly created canvas in \<^verbatim>\<open>getCanvas\<close>, the one after the
  mutation).
\<close>

record Env =
  now_evict :: int
  now_create :: int
  now_access :: int
  now_op :: int
  env_randomId :: string
  env_load :: LoadOutcome
  env_saveNew :: bool
  env_save :: bool

text \<open>The loop of \<^verbatim>\<open>evictLRU\<close> over \<^verbatim>\<open>accessOrder.entries()\<close>.\<close>

fun findOldest :: "(string \<times> int) list \<Rightarrow> string option \<Rightarrow> int \<Rightarrow> string option \<times> int" where
  "findOldest [] oldestId oldestTime = (oldestId, oldestTime)"
| "findOldest (entry # rest) oldestId oldestTime =
     (if snd entry < oldestTime
      then findOldest rest (Some (fst entry)) (snd entry)
      else findOldest rest oldestId oldestTime)"

text \<open>The test \<^verbatim>\<open>if (oldestId)\<close> is false for \<^verbatim>\<open>null\<close> and for the empty string.\<close>

definition evictLRU :: "CanvasManager \<Rightarrow> int \<Rightarrow> CanvasManager" where
  "evictLRU m now =
     (if length (canvases m) < MAX_CANVASES then m
      else case fst (findOldest (accessOrder m) None now) of
             None \<Rightarrow> m
           | Some oldestId \<Rightarrow>
               if oldestId \<noteq> []
               then m \<lparr> canvases := map_delete oldestId (canvases m),
                        accessOrder := map_delete oldestId (accessOrder m) \<rparr>
               else m)"

definition markAccessed :: "CanvasManager \<Rightarrow> string \<Rightarrow> int \<Rightarrow> CanvasManager" where
  "markAccessed m canvasId now = m \<lparr> accessOrder := map_set canvasId now (accessOrder m) \<rparr>"

definition createNewCanvas :: "string \<Rightarrow> int \<Rightarrow> Canvas" where
  "createNewCanvas canvasId now =
     \<lparr> cv_id = canvasId, cv_elements = [],
       cv_appState = [(''viewBackgroundColor'', ''#ffffff''), (''theme'', ''light'')],
       cv_createdAt = now, cv_updatedAt = now, cv_version = 1 \<rparr>"

text \<open>
  \<^verbatim>\<open>getCanvas\<close>. The first component is the canvas the promise resolves to,
  \<open>None\<close> when it rejects (the load or the first save threw); the manager is returned
  in both cases, since an eviction has happened by then.
\<close>

definition getCanvas :: "CanvasManager \<Rightarrow> string \<Rightarrow> Env \<Rightarrow> Canvas option \<times> CanvasManager" where
  "getCanvas m canvasId env =
     (case map_of (canvases m) canvasId of
        Some canvas \<Rightarrow> (Some canvas, markAccessed m canvasId (now_access env))
      | None \<Rightarrow>
          (let m1 = evictLRU m (now_evict env);
               cache = (\<lambda>canvas.
                  (Some canvas,
                   markAccessed (m1 \<lparr> canvases := map_set canvasId canvas (canvases m1) \<rparr>)
                     canvasId (now_access env)))
           in case env_load env of
                LoadThrows \<Rightarrow> (None, m1)
              | LoadFound canvas \<Rightarrow> cache canvas
              | LoadNull \<Rightarrow>
                  if env_saveNew env
                  then cache (createNewCanvas canvasId (now_create env))
                  else (None, m1)))"

datatype 'a OpResult = Success 'a | Failure ErrorCode

text \<open>
  The canvas object held by the cache is mutated in place by the source; the model stores
  the mutated canvas back under the id it was fetched with.
\<close>

definition putCanvas :: "CanvasManager \<Rightarrow> string \<Rightarrow> Canvas \<Rightarrow> CanvasManager" where
  "putCanvas m canvasId canvas = m \<lparr> canvases := map_set canvasId canvas (canvases m) \<rparr>"

fun findIndex :: "('a \<Rightarrow> bool) \<Rightarrow> 'a list \<Rightarrow> nat option" where
  "findIndex P [] = None"
| "findIndex P (x # xs) = (if P x then Some 0 else map_option Suc (findIndex P xs))"

text \<open>\<^verbatim>\<open>v || 0\<close> on a number.\<close>

definition orZero :: "int \<Rightarrow> int" where
  "orZero v = (if v = 0 then 0 else v)"

definition createElement ::
  "CanvasManager \<Rightarrow> string \<Rightarrow> PartialElement \<Rightarrow> Env \<Rightarrow> ServerElement OpResult \<times> CanvasManager" where
  "createElement m canvasId elementData env =
     (case getCanvas m canvasId env of
        (None, m1) \<Rightarrow> (Failure INTERNAL_ERROR, m1)
      | (Some canvas, m1) \<Rightarrow>
          if length (cv_elements canvas) \<ge> MAX_ELEMENTS
          then (Failure VALIDATION_ERROR, m1)
          else
            (let id = (case p_id elementData of
                         Some i \<Rightarrow> (if i \<noteq> [] then i else env_randomId env)
                       | None \<Rightarrow> env_randomId env);
                 element = addServerMetadata
                   (elementData \<lparr> p_id := Some id, p_versionNonce := Some (now_op env),
                                  p_version := Some 1, p_isDeleted := Some False \<rparr>)
                   mcp (now_op env);
                 validatedElement = hd (validateAndFixBindings [element]);
                 canvas1 = canvas \<lparr> cv_elements := cv_elements canvas @ [validatedElement],
                                    cv_updatedAt := now_op env \<rparr>;
                 m2 = putCanvas m1 canvasId canvas1
             in if env_save env then (Success validatedElement, m2)
                else (Failure INTERNAL_ERROR, m2)))"

definition updateElement ::
  "CanvasManager \<Rightarrow> string \<Rightarrow> string \<Rightarrow> PartialElement \<Rightarrow> Env
     \<Rightarrow> ServerElement OpResult \<times> CanvasManager" where
  "updateElement m canvasId elementId updates env =
     (case getCanvas m canvasId env of
        (None, m1) \<Rightarrow> (Failure INTERNAL_ERROR, m1)
      | (Some canvas, m1) \<Rightarrow>
          (case findIndex (\<lambda>el. el_id el = elementId \<and> \<not> el_isDeleted el) (cv_elements canvas) of
             None \<Rightarrow> (Failure ELEMENT_NOT_FOUND, m1)
           | Some elementIndex \<Rightarrow>
               (let existingElement = cv_elements canvas ! elementIndex
                in if el_locked existingElement then (Failure ELEMENT_LOCKED, m1)
                   else
                     (let updatedElement = updateServerMetadata
                            ((spreadUpdates existingElement updates)
                               \<lparr> el_id := elementId,
                                 el_version := orZero (el_version existingElement) + 1,
                                 el_versionNonce := now_op env \<rparr>)
                            mcp (now_op env);
                          validatedElement = hd (validateAndFixBindings [updatedElement]);
                          canvas1 = canvas
                            \<lparr> cv_elements := (cv_elements canvas)[elementIndex := validatedElement],
                              cv_updatedAt := now_op env \<rparr>;
                          m2 = putCanvas m1 canvasId canvas1
                      in if env_save env then (Success validatedElement, m2)
                         else (Failure INTERNAL_ERROR, m2)))))"

definition deleteElement ::
  "CanvasManager \<Rightarrow> string \<Rightarrow> string \<Rightarrow> Env \<Rightarrow> string OpResult \<times> CanvasManager" where
  "deleteElement m canvasId elementId env =
     (case getCanvas m canvasId env of
        (None, m1) \<Rightarrow> (Failure INTERNAL_ERROR, m1)
      | (Some canvas, m1) \<Rightarrow>
          (case findIndex (\<lambda>el. el_id el = elementId \<and> \<not> el_isDeleted el) (cv_elements canvas) of
             None \<Rightarrow> (Failure ELEMENT_NOT_FOUND, m1)
           | Some elementIndex \<Rightarrow>
               (let element = cv_elements canvas ! elementIndex
                in if el_locked element then (Failure ELEMENT_LOCKED, m1)
                   else
                     (let element1 = element \<lparr> el_isDeleted := True, el_updatedAt := now_op env \<rparr>;
                          canvas1 = canvas
                            \<lparr> cv_elements := (cv_elements canvas)[elementIndex := element1],
                              cv_updatedAt := now_op env \<rparr>;
                          m2 = putCanvas m1 canvasId canvas1
                      in if env_save env then (Success elementId, m2)
                         else (Failure INTERNAL_ERROR, m2)))))"

definition getActiveElements :: "CanvasManager \<Rightarrow> string \<Rightarrow> ServerElement list" where
  "getActiveElements m canvasId =
     (case map_of (canvases m) canvasId of
        None \<Rightarrow> []
      | Some canvas \<Rightarrow> filter (\<lambda>el. \<not> el_isDeleted el) (cv_elements canvas))"

definition getElementById :: "CanvasManager \<Rightarrow> string \<Rightarrow> string \<Rightarrow> ServerElement option" where
  "getElementById m canvasId elementId =
     (case map_of (canvases m) canvasId of
        None \<Rightarrow> None
      | Some canvas \<Rightarrow>
          find (\<lambda>el. el_id el = elementId \<and> \<not> el_isDeleted el) (cv_elements canvas))"

text \<open>\<^verbatim>\<open>clearCanvas\<close> returns \<^verbatim>\<open>{ success, deletedCount }\<close>.\<close>

definition clearCanvas :: "CanvasManager \<Rightarrow> string \<Rightarrow> Env \<Rightarrow> (bool \<times> nat) \<times> CanvasManager" where
  "clearCanvas m canvasId env =
     (case getCanvas m canvasId env of
        (None, m1) \<Rightarrow> ((False, 0), m1)
      | (Some canvas, m1) \<Rightarrow>
          (let activeCount = length (filter (\<lambda>el. \<not> el_isDeleted el) (cv_elements canvas));
               canvas1 = canvas
                 \<lparr> cv_elements :=
                     map (\<lambda>el. if \<not> el_isDeleted el
                                then el \<lparr> el_isDeleted := True, el_updatedAt := now_op env \<rparr>
                                else el)
                         (cv_elements canvas),
                   cv_updatedAt := now_op env \<rparr>;
               m2 = putCanvas m1 canvasId canvas1
           in if env_save env then ((True, activeCount), m2) else ((False, 0), m2)))"

section \<open>The unlock\_elements tool (index.ts)\<close>

definition CANVAS_ID :: string where
  "CANVAS_ID = ''main''"

text \<open>
  The loop of the handler over \<^verbatim>\<open>params.elementIds\<close>, each id with the environment its
  \<^verbatim>\<open>updateElement\<close> call meets. The count is \<open>None\<close> when the handler threw
  (\<^verbatim>\<open>Element ... not found\<close>).
\<close>

fun unlockLoop ::
  "CanvasManager \<Rightarrow> (string \<times> Env) list \<Rightarrow> nat \<Rightarrow> nat option \<times> CanvasManager" where
  "unlockLoop m [] count = (Some count, m)"
| "unlockLoop m ((elementId, env) # rest) count =
     (case getElementById m CANVAS_ID elementId of
        None \<Rightarrow> (None, m)
      | Some element \<Rightarrow>
          if el_locked element
          then (case updateElement m CANVAS_ID elementId (emptyPartial \<lparr> p_locked := Some False \<rparr>) env of
                  (Success e, m1) \<Rightarrow> unlockLoop m1 rest (count + 1)
                | (Failure c, m1) \<Rightarrow> unlockLoop m1 rest count)
          else unlockLoop m rest (count + 1))"

text \<open>The output \<^verbatim>\<open>{ success, unlockedCount }\<close> of the tool.\<close>

definition unlock_elements ::
  "CanvasManager \<Rightarrow> (string \<times> Env) list \<Rightarrow> (bool \<times> nat) \<times> CanvasManager" where
  "unlock_elements m requests =
     (case unlockLoop m requests 0 of
        (None, m1) \<Rightarrow> ((False, 0), m1)
      | (Some count, m1) \<Rightarrow> ((True, count), m1))"

section \<open>Constants of the examples: snapshots\<close>

definition canvas_a_b :: Canvas where
  "canvas_a_b = \<lparr> cv_id = ''a.b'', cv_elements = [], cv_appState = [], cv_createdAt = 1,
     cv_updatedAt = 1, cv_version = 1 \<rparr>"

definition canvas_ab :: Canvas where
  "canvas_ab = \<lparr> cv_id = ''ab'', cv_elements = [], cv_appState = [], cv_createdAt = 2,
     cv_updatedAt = 2, cv_version = 7 \<rparr>"

definition io_ok :: "int \<Rightarrow> IoEnv" where
  "io_ok t = \<lparr> io_fault = NoFault, io_unlinkFails = False, io_now = t \<rparr>"


section \<open>Derived notions used in the statements\<close>

text \<open>
  The element \<^verbatim>\<open>createElement\<close> finalises (\<^verbatim>\<open>validatedElement\<close>) and the element
  \<^verbatim>\<open>updateElement\<close> puts in place of the existing one, as functions of the inputs.
\<close>

definition createdElement :: "PartialElement \<Rightarrow> Env \<Rightarrow> ServerElement" where
  "createdElement elementData env =
     hd (validateAndFixBindings [addServerMetadata
       (elementData \<lparr> p_id := Some (case p_id elementData of
                                       Some i \<Rightarrow> (if i \<noteq> [] then i else env_randomId env)
                                     | None \<Rightarrow> env_randomId env),
                      p_versionNonce := Some (now_op env),
                      p_version := Some 1, p_isDeleted := Some False \<rparr>)
       mcp (now_op env)])"

definition mergedElement :: "ServerElement \<Rightarrow> string \<Rightarrow> PartialElement \<Rightarrow> Env \<Rightarrow> ServerElement" where
  "mergedElement existingElement elementId updates env =
     hd (validateAndFixBindings [updateServerMetadata
       ((spreadUpdates existingElement updates)
          \<lparr> el_id := elementId, el_version := orZero (el_version existingElement) + 1,
            el_versionNonce := now_op env \<rparr>)
       mcp (now_op env)])"

section \<open>Constants of the examples: canvases, managers, environments, registries\<close>

definition elem0 :: ServerElement where
  "elem0 = \<lparr> el_id = ''e1'', el_type = Some ''rectangle'', el_x = Some 100, el_y = Some 100,
     el_version = 1, el_versionNonce = 0, el_isDeleted = False, el_locked = False,
     el_groupIds = [], el_boundElements = None, el_createdAt = 0, el_updatedAt = 0,
     el_source = Some mcp \<rparr>"

definition canvas_full :: Canvas where
  "canvas_full = \<lparr> cv_id = ''main'', cv_elements = replicate 10000 elem0, cv_appState = [],
     cv_createdAt = 0, cv_updatedAt = 0, cv_version = 1 \<rparr>"

definition manager_full :: CanvasManager where
  "manager_full = \<lparr> canvases = [(''main'', canvas_full)], accessOrder = [(''main'', 1000)] \<rparr>"

definition canvas_one :: Canvas where
  "canvas_one = \<lparr> cv_id = ''main'', cv_elements = [elem0], cv_appState = [],
     cv_createdAt = 0, cv_updatedAt = 0, cv_version = 1 \<rparr>"

definition manager_one :: CanvasManager where
  "manager_one = \<lparr> canvases = [(''main'', canvas_one)], accessOrder = [(''main'', 1000)] \<rparr>"

definition env0 :: Env where
  "env0 = \<lparr> now_evict = 2000, now_create = 2000, now_access = 2000, now_op = 2000,
     env_randomId = ''r1'', env_load = LoadNull, env_saveNew = True, env_save = True \<rparr>"

definition payload_other :: PartialElement where
  "payload_other = emptyPartial \<lparr> p_id := Some ''other'', p_x := Some 150 \<rparr>"

definition elem0_updated :: ServerElement where
  "elem0_updated = elem0 \<lparr> el_x := Some 150, el_version := 2, el_versionNonce := 2000,
     el_updatedAt := 2000 \<rparr>"

text \<open>Whether a structured result carries \<^verbatim>\<open>success: true\<close>.\<close>

definition isSuccess :: "'a OpResult \<Rightarrow> bool" where
  "isSuccess r = (case r of Success x \<Rightarrow> True | Failure c \<Rightarrow> False)"


definition elem_locked :: ServerElement where
  "elem_locked = elem0 \<lparr> el_locked := True \<rparr>"

definition canvas_locked :: Canvas where
  "canvas_locked = canvas_one \<lparr> cv_elements := [elem_locked] \<rparr>"

definition manager_locked :: CanvasManager where
  "manager_locked = \<lparr> canvases = [(''main'', canvas_locked)], accessOrder = [(''main'', 1000)] \<rparr>"

text \<open>The payload \<^verbatim>\<open>{ locked: false }\<close> of the unlock tool.\<close>

definition unlockPayload :: PartialElement where
  "unlockPayload = emptyPartial \<lparr> p_locked := Some False \<rparr>"

text \<open>
  One hundred cached canvases \<^verbatim>\<open>c00\<close> ... \<^verbatim>\<open>c99\<close>, each created and last accessed at the
  clock reading 1000, and an environment in which every reading of the clock is 1000.
\<close>

definition canvasName :: "nat \<Rightarrow> string" where
  "canvasName n = [CHR ''c'', ''0123456789'' ! (n div 10), ''0123456789'' ! (n mod 10)]"

definition hundredUpTo :: "nat \<Rightarrow> CanvasManager" where
  "hundredUpTo k =
     \<lparr> canvases = map (\<lambda>n. (canvasName n, createNewCanvas (canvasName n) 1000)) [0..<k],
       accessOrder = map (\<lambda>n. (canvasName n, 1000)) [0..<k] \<rparr>"

definition manager_hundred :: CanvasManager where
  "manager_hundred = hundredUpTo 100"

definition env_same_ms :: Env where
  "env_same_ms = \<lparr> now_evict = 1000, now_create = 1000, now_access = 1000, now_op = 1000,
     env_randomId = ''r1'', env_load = LoadNull, env_saveNew = True, env_save = True \<rparr>"

definition emptyManager :: CanvasManager where
  "emptyManager = \<lparr> canvases = [], accessOrder = [] \<rparr>"

text \<open>A limiter configured with a ceiling of zero requests per second.\<close>

definition limiter_zero :: RateLimitConfig where
  "limiter_zero = \<lparr> windowMs = 1000, maxRequests = 0, limiterName = ''test'' \<rparr>"

text \<open>
  What a broadcast does to one registry entry it delivers to (the activity stamp is
  renewed), and the entries on which the delivery fails.
\<close>

definition touch :: "string \<Rightarrow> string option \<Rightarrow> int \<Rightarrow> string \<times> WebSocketConnection
    \<Rightarrow> string \<times> WebSocketConnection" where
  "touch canvasId excludeConnectionId now entry =
     (if eligible canvasId excludeConnectionId entry
      then (fst entry, (snd entry) \<lparr> conn_lastActivity := now \<rparr>)
      else entry)"

definition sendFails :: "string \<Rightarrow> string option \<Rightarrow> string \<times> WebSocketConnection \<Rightarrow> bool" where
  "sendFails canvasId excludeConnectionId entry \<longleftrightarrow>
     eligible canvasId excludeConnectionId entry \<and> conn_sendThrows (snd entry)"

text \<open>
  A registry of six connections: three healthy observers of \<^verbatim>\<open>main\<close> (the second one
  is the originator to exclude), one whose socket throws on \<^verbatim>\<open>send\<close>, one observer of
  another canvas, one socket that is closed.
\<close>

definition ws :: "string \<Rightarrow> nat \<Rightarrow> bool \<Rightarrow> WebSocketConnection" where
  "ws canvasId readyState sendThrows =
     \<lparr> conn_canvasId = canvasId, conn_readyState = readyState, conn_sendThrows = sendThrows,
       conn_connectedAt = 0, conn_lastActivity = 0 \<rparr>"

definition conns_six :: Connections where
  "conns_six = [(''conn1'', ws ''main'' 1 False), (''conn2'', ws ''main'' 1 False),
                (''conn3'', ws ''main'' 1 True), (''conn4'', ws ''main'' 1 False),
                (''conn5'', ws ''other'' 1 False), (''conn6'', ws ''main'' 3 False)]"

text \<open>
  A call of \<^verbatim>\<open>saveCanvas\<close>: the canvas, the token of the caller, the time of the call.
  \<open>saveAll\<close> is a run of calls with no timer firing in between, \<open>timerDue\<close> the time
  at which the timer armed for an id becomes due, and \<open>settleAll\<close> the settlement of
  all waiters of a cycle by one write.
\<close>

type_synonym SaveCallArgs = "Canvas \<times> nat \<times> int"

definition saveAll :: "CanvasStorage \<Rightarrow> SaveCallArgs list \<Rightarrow> CanvasStorage" where
  "saveAll st calls =
     foldl (\<lambda>s call. saveCanvas s (fst call) (fst (snd call)) (snd (snd call))) st calls"

definition timerDue :: "CanvasStorage \<Rightarrow> string \<Rightarrow> int option" where
  "timerDue st canvasId =
     (case pendingSaves st canvasId of None \<Rightarrow> None | Some p \<Rightarrow> ps_timeoutId p)"



definition asSaveCall :: "SaveCallArgs \<Rightarrow> StorageEvent" where
  "asSaveCall call = SaveCall (fst call) (fst (snd call)) (snd (snd call))"




section \<open>Snapshot paths are shared by ids with the same sanitized form\<close>

lemma getCanvasPath_saveCanvas [simp]:
  "getCanvasPath (saveCanvas st canvas caller now) canvasId = getCanvasPath st canvasId"
  by (simp add: saveCanvas_def getCanvasPath_def Let_def)

lemma dataDir_executeSave [simp]:
  "dataDir (fst (executeSave st canvasId io)) = dataDir st"
  by (simp add: executeSave_def Let_def split: option.splits FsFault.splits)

lemma getCanvasPath_executeSave [simp]:
  "getCanvasPath (fst (executeSave st k io)) canvasId = getCanvasPath st canvasId"
  by (simp add: getCanvasPath_def)

lemma files_saveCanvas [simp]:
  "files (saveCanvas st canvas caller now) = files st"
  by (simp add: saveCanvas_def Let_def)

lemma pending_canvas_saveCanvas:
  "\<exists>p. pendingSaves (saveCanvas st canvas caller now) (cv_id canvas) = Some p
       \<and> ps_canvas p = canvas"
  by (simp add: saveCanvas_def Let_def)

lemma executeSave_ok_writes_file:
  assumes "pendingSaves st canvasId = Some p" and "io_fault io = NoFault"
  shows "files (fst (executeSave st canvasId io)) (getCanvasPath st (cv_id (ps_canvas p)))
           = Some (ps_canvas p)"
  using assms by (simp add: executeSave_def Let_def getCanvasPath_def)

lemma savedNow_file:
  assumes "io_fault io = NoFault"
  shows "files (savedNow st canvas caller now io) (getCanvasPath st (cv_id canvas)) = Some canvas"
proof -
  obtain p where p: "pendingSaves (saveCanvas st canvas caller now) (cv_id canvas) = Some p"
    and c: "ps_canvas p = canvas"
    using pending_canvas_saveCanvas by blast
  from executeSave_ok_writes_file [OF p assms] c show ?thesis
    by (simp add: savedNow_def)
qed

lemma getCanvasPath_savedNow [simp]:
  "getCanvasPath (savedNow st canvas caller now io) canvasId = getCanvasPath st canvasId"
  by (simp add: savedNow_def)

text \<open>
  C10. The derivation of the snapshot path is not injective. Two document ids with the
  same sanitized form (they differ only in characters outside the alphanumerics,
  \<^verbatim>\<open>-\<close> and \<^verbatim>\<open>_\<close>) have the same path; when the canvas of the first is saved and then
  the canvas of the second, loading either id returns the canvas saved last, so the first
  snapshot is overwritten.
\<close>

theorem snapshot_path_collision:
  assumes "sanitize (cv_id c1) = sanitize (cv_id c2)"
    and "io_fault io1 = NoFault" and "io_fault io2 = NoFault"
  shows "getCanvasPath st (cv_id c1) = getCanvasPath st (cv_id c2)
       \<and> loadCanvas (savedNow (savedNow st c1 k1 t1 io1) c2 k2 t2 io2) (cv_id c1) False
           = LoadFound c2
       \<and> loadCanvas (savedNow (savedNow st c1 k1 t1 io1) c2 k2 t2 io2) (cv_id c2) False
           = LoadFound c2"
proof -
  have same: "getCanvasPath st (cv_id c1) = getCanvasPath st (cv_id c2)"
    using assms(1) by (simp add: getCanvasPath_def)
  let ?st1 = "savedNow st c1 k1 t1 io1"
  have "files (savedNow ?st1 c2 k2 t2 io2) (getCanvasPath ?st1 (cv_id c2)) = Some c2"
    using assms(3) by (rule savedNow_file)
  then have f: "files (savedNow ?st1 c2 k2 t2 io2) (getCanvasPath st (cv_id c2)) = Some c2"
    by simp
  show ?thesis
    using same f by (simp add: loadCanvas_def)
qed

theorem snapshot_path_collision_witness:
  "cv_id canvas_a_b \<noteq> cv_id canvas_ab
   \<and> getCanvasPath (newStorage ''data'') ''a.b'' = getCanvasPath (newStorage ''data'') ''ab''
   \<and> loadCanvas (savedNow (savedNow (newStorage ''data'') canvas_a_b 1 5000 (io_ok 5001))
                    canvas_ab 2 7000 (io_ok 7001)) ''a.b'' False = LoadFound canvas_ab"
proof -
  have s: "sanitize (cv_id canvas_a_b) = sanitize (cv_id canvas_ab)"
    by (simp add: canvas_a_b_def canvas_ab_def sanitize_def keptChar_def)
  have ok1: "io_fault (io_ok 5001) = NoFault" and ok2: "io_fault (io_ok 7001) = NoFault"
    by (simp_all add: io_ok_def)
  have ne: "cv_id canvas_a_b \<noteq> cv_id canvas_ab"
    by (simp add: canvas_a_b_def canvas_ab_def)
  from snapshot_path_collision [OF s ok1 ok2, of "newStorage ''data''" 1 5000 2 7000] ne
  show ?thesis
    by (simp add: canvas_a_b_def canvas_ab_def)
qed

section \<open>Canvas manager: basic facts\<close>

lemma filter_other_keys:
  assumes "k \<notin> fst ` set xs"
  shows "filter (\<lambda>entry. fst entry \<noteq> k) xs = xs"
  using assms by (induction xs) auto

lemma map_of_map_set [simp]: "map_of (map_set k v m) k = Some v"
  by (induction m) auto


lemma getCanvas_cached:
  "getCanvas m canvasId env = (Some canvas, m1) \<Longrightarrow> map_of (canvases m1) canvasId = Some canvas"
  by (auto simp: getCanvas_def markAccessed_def Let_def split: option.splits LoadOutcome.splits if_splits)

lemma validate_single:
  "validateAndFixBindings [e] =
     [case el_boundElements e of None \<Rightarrow> e
      | Some bs \<Rightarrow> e \<lparr> el_boundElements := Some (filter (keepBinding [e]) bs) \<rparr>]"
  by (simp add: validateAndFixBindings_def)

lemma el_version_validated [simp]:
  "el_version (hd (validateAndFixBindings [e])) = el_version e"
  "el_id (hd (validateAndFixBindings [e])) = el_id e"
  "el_isDeleted (hd (validateAndFixBindings [e])) = el_isDeleted e"
  "el_locked (hd (validateAndFixBindings [e])) = el_locked e"
  by (simp_all add: validate_single split: option.splits)


lemma map_of_putCanvas [simp]:
  "map_of (canvases (putCanvas m canvasId canvas)) canvasId = Some canvas"
  by (simp add: putCanvas_def)

lemma createdElement_fields [simp]:
  "el_version (createdElement elementData env) = 1"
  "\<not> el_isDeleted (createdElement elementData env)"
  by (simp_all add: createdElement_def addServerMetadata_def ensureExcalidrawProperties_def)

lemma mergedElement_fields [simp]:
  "el_version (mergedElement existing elementId updates env) = el_version existing + 1"
  "el_id (mergedElement existing elementId updates env) = elementId"
  by (simp_all add: mergedElement_def updateServerMetadata_def orZero_def)

lemma createElement_unfold:
  assumes "getCanvas m canvasId env = (Some canvas, m1)"
    and "length (cv_elements canvas) < MAX_ELEMENTS"
  shows "createElement m canvasId elementData env =
           (if env_save env then Success (createdElement elementData env)
            else Failure INTERNAL_ERROR,
            putCanvas m1 canvasId
              (canvas \<lparr> cv_elements := cv_elements canvas @ [createdElement elementData env],
                        cv_updatedAt := now_op env \<rparr>))"
  using assms
  by (simp add: createElement_def Let_def createdElement_def)

lemma updateElement_unfold:
  assumes "getCanvas m canvasId env = (Some canvas, m1)"
    and "findIndex (\<lambda>el. el_id el = elementId \<and> \<not> el_isDeleted el) (cv_elements canvas) = Some i"
    and "\<not> el_locked (cv_elements canvas ! i)"
  shows "updateElement m canvasId elementId updates env =
           (if env_save env
            then Success (mergedElement (cv_elements canvas ! i) elementId updates env)
            else Failure INTERNAL_ERROR,
            putCanvas m1 canvasId
              (canvas \<lparr> cv_elements := (cv_elements canvas)
                           [i := mergedElement (cv_elements canvas ! i) elementId updates env],
                        cv_updatedAt := now_op env \<rparr>))"
  using assms
  by (simp add: updateElement_def Let_def mergedElement_def)

lemma deleteElement_unfold:
  assumes "getCanvas m canvasId env = (Some canvas, m1)"
    and "findIndex (\<lambda>el. el_id el = elementId \<and> \<not> el_isDeleted el) (cv_elements canvas) = Some i"
    and "\<not> el_locked (cv_elements canvas ! i)"
  shows "deleteElement m canvasId elementId env =
           (if env_save env then Success elementId else Failure INTERNAL_ERROR,
            putCanvas m1 canvasId
              (canvas \<lparr> cv_elements := (cv_elements canvas)
                           [i := (cv_elements canvas ! i) \<lparr> el_isDeleted := True, el_updatedAt := now_op env \<rparr>],
                        cv_updatedAt := now_op env \<rparr>))"
  using assms
  by (simp add: deleteElement_def Let_def)


lemma getCanvas_manager_full:
  "getCanvas manager_full ''main'' env0 = (Some canvas_full, markAccessed manager_full ''main'' 2000)"
  by (simp add: getCanvas_def manager_full_def env0_def)

section \<open>The element ceiling\<close>

text \<open>
  C4 (as the code has it). When the document \<^verbatim>\<open>createElement\<close> works on holds
  \<^verbatim>\<open>MAX_ELEMENTS\<close> elements or more, soft-deleted ones included, the call fails, the
  typed error is \<^verbatim>\<open>VALIDATION_ERROR\<close> (the table of error codes has no code for the
  element ceiling), and the cached document is the one the call found: its element list is
  unchanged.
\<close>

theorem createElement_at_limit:
  assumes "getCanvas m canvasId env = (Some canvas, m1)"
    and "length (cv_elements canvas) \<ge> MAX_ELEMENTS"
  shows "createElement m canvasId elementData env = (Failure VALIDATION_ERROR, m1)
       \<and> map_of (canvases m1) canvasId = Some canvas"
  using assms getCanvas_cached [OF assms(1)] by (simp add: createElement_def)

text \<open>
  C4 as stated fails: on a cached document with 10000 elements the error code returned is
  \<^verbatim>\<open>VALIDATION_ERROR\<close>, not a code of its own for the exceeded ceiling.
\<close>

theorem createElement_at_limit_counterexample:
  "fst (createElement manager_full ''main'' emptyPartial env0) = Failure VALIDATION_ERROR"
  by (simp add: createElement_def getCanvas_manager_full canvas_full_def MAX_ELEMENTS_def)

theorem createElement_at_limit_witness:
  "getCanvas manager_full ''main'' env0 = (Some canvas_full, markAccessed manager_full ''main'' 2000)
   \<and> MAX_ELEMENTS \<le> length (cv_elements canvas_full)
   \<and> createElement manager_full ''main'' emptyPartial env0
       = (Failure VALIDATION_ERROR, markAccessed manager_full ''main'' 2000)
   \<and> map_of (canvases (markAccessed manager_full ''main'' 2000)) ''main'' = Some canvas_full"
proof -
  have len: "MAX_ELEMENTS \<le> length (cv_elements canvas_full)"
    by (simp add: canvas_full_def MAX_ELEMENTS_def)
  from createElement_at_limit [OF getCanvas_manager_full len, of emptyPartial]
  show ?thesis using getCanvas_manager_full len by simp
qed

section \<open>Element versions and ids under update\<close>



lemma updateElement_manager_one:
  "updateElement manager_one ''main'' ''e1'' payload_other env0
     = (Success elem0_updated,
        \<lparr> canvases = [(''main'', canvas_one \<lparr> cv_elements := [elem0_updated], cv_updatedAt := 2000 \<rparr>)],
          accessOrder = [(''main'', 2000)] \<rparr>)"
  by (simp add: updateElement_def getCanvas_def manager_one_def canvas_one_def env0_def
      markAccessed_def elem0_def elem0_updated_def payload_other_def emptyPartial_def
      spreadUpdates_def updateServerMetadata_def orZero_def validate_single putCanvas_def Let_def)



section \<open>A failed save does not roll the cache back\<close>


lemma getCanvas_manager_one:
  "getCanvas manager_one ''main'' env = (Some canvas_one, markAccessed manager_one ''main'' (now_access env))"
  by (simp add: getCanvas_def manager_one_def)

lemma findIndex_canvas_one:
  "findIndex (\<lambda>el. el_id el = ''e1'' \<and> \<not> el_isDeleted el) (cv_elements canvas_one) = Some 0"
  by (simp add: canvas_one_def elem0_def)


section \<open>The document version under the element operations\<close>

lemma clearCanvas_unfold:
  assumes "getCanvas m canvasId env = (Some canvas, m1)"
  shows "clearCanvas m canvasId env =
           (if env_save env
            then (True, length (filter (\<lambda>el. \<not> el_isDeleted el) (cv_elements canvas)))
            else (False, 0),
            putCanvas m1 canvasId
              (canvas \<lparr> cv_elements :=
                          map (\<lambda>el. if \<not> el_isDeleted el
                                     then el \<lparr> el_isDeleted := True, el_updatedAt := now_op env \<rparr>
                                     else el) (cv_elements canvas),
                        cv_updatedAt := now_op env \<rparr>))"
  using assms by (simp add: clearCanvas_def Let_def)

lemma createElement_version_id:
  assumes g: "getCanvas m canvasId env = (Some canvas, m1)"
    and ok: "isSuccess (fst (createElement m canvasId elementData env))"
  shows "\<exists>canvas2. map_of (canvases (snd (createElement m canvasId elementData env))) canvasId
                       = Some canvas2
                   \<and> cv_version canvas2 = cv_version canvas \<and> cv_id canvas2 = cv_id canvas"
proof (cases "length (cv_elements canvas) < MAX_ELEMENTS")
  case True
  show ?thesis by (simp add: createElement_unfold [OF g True])
next
  case False
  then have "createElement m canvasId elementData env = (Failure VALIDATION_ERROR, m1)"
    using g by (simp add: createElement_def)
  with ok show ?thesis by (simp add: isSuccess_def)
qed

lemma updateElement_version_id:
  assumes g: "getCanvas m canvasId env = (Some canvas, m1)"
    and ok: "isSuccess (fst (updateElement m canvasId elementId updates env))"
  shows "\<exists>canvas2. map_of (canvases (snd (updateElement m canvasId elementId updates env))) canvasId
                       = Some canvas2
                   \<and> cv_version canvas2 = cv_version canvas \<and> cv_id canvas2 = cv_id canvas"
proof (cases "findIndex (\<lambda>el. el_id el = elementId \<and> \<not> el_isDeleted el) (cv_elements canvas)")
  case None
  with g ok show ?thesis by (simp add: updateElement_def isSuccess_def)
next
  case (Some i)
  show ?thesis
  proof (cases "el_locked (cv_elements canvas ! i)")
    case True
    with g Some ok show ?thesis by (simp add: updateElement_def isSuccess_def)
  next
    case False
    show ?thesis by (simp add: updateElement_unfold [OF g Some False])
  qed
qed

lemma deleteElement_version_id:
  assumes g: "getCanvas m canvasId env = (Some canvas, m1)"
    and ok: "isSuccess (fst (deleteElement m canvasId elementId env))"
  shows "\<exists>canvas2. map_of (canvases (snd (deleteElement m canvasId elementId env))) canvasId
                       = Some canvas2
                   \<and> cv_version canvas2 = cv_version canvas \<and> cv_id canvas2 = cv_id canvas"
proof (cases "findIndex (\<lambda>el. el_id el = elementId \<and> \<not> el_isDeleted el) (cv_elements canvas)")
  case None
  with g ok show ?thesis by (simp add: deleteElement_def isSuccess_def)
next
  case (Some i)
  show ?thesis
  proof (cases "el_locked (cv_elements canvas ! i)")
    case True
    with g Some ok show ?thesis by (simp add: deleteElement_def isSuccess_def)
  next
    case False
    show ?thesis by (simp add: deleteElement_unfold [OF g Some False])
  qed
qed

lemma clearCanvas_version_id:
  assumes g: "getCanvas m canvasId env = (Some canvas, m1)"
  shows "\<exists>canvas2. map_of (canvases (snd (clearCanvas m canvasId env))) canvasId = Some canvas2
                   \<and> cv_version canvas2 = cv_version canvas \<and> cv_id canvas2 = cv_id canvas"
  by (simp add: clearCanvas_unfold [OF g])

text \<open>
  C1 (as the code has it). Across every successful \<^verbatim>\<open>createElement\<close>,
  \<^verbatim>\<open>updateElement\<close>, \<^verbatim>\<open>deleteElement\<close> and \<^verbatim>\<open>clearCanvas\<close> the cached document
  keeps the version and the id of the document the operation started from: the version is
  left as it is (so it is never decremented, and it does not increase either), and the id
  is unchanged.
\<close>

theorem mutations_keep_version_and_id:
  assumes "getCanvas m canvasId env = (Some canvas, m1)"
  shows "(isSuccess (fst (createElement m canvasId elementData env)) \<longrightarrow>
            (\<exists>canvas2. map_of (canvases (snd (createElement m canvasId elementData env))) canvasId
                          = Some canvas2
                      \<and> cv_version canvas2 = cv_version canvas \<and> cv_id canvas2 = cv_id canvas))
       \<and> (isSuccess (fst (updateElement m canvasId elementId updates env)) \<longrightarrow>
            (\<exists>canvas2. map_of (canvases (snd (updateElement m canvasId elementId updates env))) canvasId
                          = Some canvas2
                      \<and> cv_version canvas2 = cv_version canvas \<and> cv_id canvas2 = cv_id canvas))
       \<and> (isSuccess (fst (deleteElement m canvasId elementId env)) \<longrightarrow>
            (\<exists>canvas2. map_of (canvases (snd (deleteElement m canvasId elementId env))) canvasId
                          = Some canvas2
                      \<and> cv_version canvas2 = cv_version canvas \<and> cv_id canvas2 = cv_id canvas))
       \<and> (fst (fst (clearCanvas m canvasId env)) \<longrightarrow>
            (\<exists>canvas2. map_of (canvases (snd (clearCanvas m canvasId env))) canvasId = Some canvas2
                      \<and> cv_version canvas2 = cv_version canvas \<and> cv_id canvas2 = cv_id canvas))"
  using createElement_version_id [OF assms] updateElement_version_id [OF assms]
    deleteElement_version_id [OF assms] clearCanvas_version_id [OF assms]
  by blast

lemma createElement_manager_one:
  "createElement manager_one ''main'' emptyPartial env0
     = (Success (createdElement emptyPartial env0),
        putCanvas (markAccessed manager_one ''main'' 2000) ''main''
          (canvas_one \<lparr> cv_elements := cv_elements canvas_one @ [createdElement emptyPartial env0],
                        cv_updatedAt := 2000 \<rparr>))"
proof -
  have len: "length (cv_elements canvas_one) < MAX_ELEMENTS"
    by (simp add: canvas_one_def MAX_ELEMENTS_def)
  have g: "getCanvas manager_one ''main'' env0 = (Some canvas_one, markAccessed manager_one ''main'' 2000)"
    by (simp add: getCanvas_manager_one env0_def)
  show ?thesis
    using createElement_unfold [OF g len, of emptyPartial] by (simp add: env0_def)
qed

text \<open>
  C1 as stated fails: a successful \<^verbatim>\<open>createElement\<close> on a cached document of version 1
  leaves the document at version 1; the version has not strictly increased.
\<close>

theorem document_version_counterexample:
  "isSuccess (fst (createElement manager_one ''main'' emptyPartial env0))
   \<and> map_of (canvases manager_one) ''main'' = Some canvas_one
   \<and> map_option cv_version
       (map_of (canvases (snd (createElement manager_one ''main'' emptyPartial env0))) ''main'')
       = Some (cv_version canvas_one)"
  by (simp add: createElement_manager_one isSuccess_def) (simp add: manager_one_def)

theorem mutations_keep_version_and_id_witness:
  "getCanvas manager_one ''main'' env0 = (Some canvas_one, markAccessed manager_one ''main'' 2000)
   \<and> isSuccess (fst (createElement manager_one ''main'' emptyPartial env0))
   \<and> isSuccess (fst (updateElement manager_one ''main'' ''e1'' payload_other env0))
   \<and> isSuccess (fst (deleteElement manager_one ''main'' ''e1'' env0))
   \<and> fst (fst (clearCanvas manager_one ''main'' env0))
   \<and> (\<exists>canvas2. map_of (canvases (snd (createElement manager_one ''main'' emptyPartial env0))) ''main''
                    = Some canvas2
                \<and> cv_version canvas2 = cv_version canvas_one \<and> cv_id canvas2 = cv_id canvas_one)
   \<and> (\<exists>canvas2. map_of (canvases (snd (updateElement manager_one ''main'' ''e1'' payload_other env0))) ''main''
                    = Some canvas2
                \<and> cv_version canvas2 = cv_version canvas_one \<and> cv_id canvas2 = cv_id canvas_one)
   \<and> (\<exists>canvas2. map_of (canvases (snd (deleteElement manager_one ''main'' ''e1'' env0))) ''main''
                    = Some canvas2
                \<and> cv_version canvas2 = cv_version canvas_one \<and> cv_id canvas2 = cv_id canvas_one)
   \<and> (\<exists>canvas2. map_of (canvases (snd (clearCanvas manager_one ''main'' env0))) ''main'' = Some canvas2
                \<and> cv_version canvas2 = cv_version canvas_one \<and> cv_id canvas2 = cv_id canvas_one)"
proof -
  have g: "getCanvas manager_one ''main'' env0 = (Some canvas_one, markAccessed manager_one ''main'' 2000)"
    by (simp add: getCanvas_manager_one env0_def)
  have nl: "\<not> el_locked (cv_elements canvas_one ! 0)"
    by (simp add: canvas_one_def elem0_def)
  have sv: "env_save env0" by (simp add: env0_def)
  have c: "isSuccess (fst (createElement manager_one ''main'' emptyPartial env0))"
    by (simp add: createElement_manager_one isSuccess_def)
  have u: "isSuccess (fst (updateElement manager_one ''main'' ''e1'' payload_other env0))"
    by (simp add: updateElement_manager_one isSuccess_def)
  have d: "isSuccess (fst (deleteElement manager_one ''main'' ''e1'' env0))"
    using deleteElement_unfold [OF g findIndex_canvas_one nl] sv by (simp add: isSuccess_def)
  have cl: "fst (fst (clearCanvas manager_one ''main'' env0))"
    using clearCanvas_unfold [OF g] sv by simp
  from mutations_keep_version_and_id [OF g, of emptyPartial "''e1''" payload_other]
  show ?thesis using g c u d cl by blast
qed

section \<open>Locked elements\<close>

text \<open>
  A locked active element rejects every update and the delete with
  \<^verbatim>\<open>ELEMENT_LOCKED\<close>, whatever the payload of the update is; the manager is left as
  \<^verbatim>\<open>getCanvas\<close> returned it.
\<close>

lemma locked_rejects_update_and_delete:
  assumes "getCanvas m canvasId env = (Some canvas, m1)"
    and "findIndex (\<lambda>el. el_id el = elementId \<and> \<not> el_isDeleted el) (cv_elements canvas) = Some i"
    and "el_locked (cv_elements canvas ! i)"
  shows "updateElement m canvasId elementId updates env = (Failure ELEMENT_LOCKED, m1)"
    and "deleteElement m canvasId elementId env = (Failure ELEMENT_LOCKED, m1)"
  using assms by (simp_all add: updateElement_def deleteElement_def)

lemma getCanvas_manager_locked:
  "getCanvas manager_locked ''main'' env
     = (Some canvas_locked, markAccessed manager_locked ''main'' (now_access env))"
  by (simp add: getCanvas_def manager_locked_def)

lemma findIndex_canvas_locked:
  "findIndex (\<lambda>el. el_id el = ''e1'' \<and> \<not> el_isDeleted el) (cv_elements canvas_locked) = Some 0"
  by (simp add: canvas_locked_def elem_locked_def elem0_def)

lemma locked_canvas_locked: "el_locked (cv_elements canvas_locked ! 0)"
  by (simp add: canvas_locked_def elem_locked_def)

lemma markAccessed_manager_locked:
  "markAccessed manager_locked ''main'' 2000
     = \<lparr> canvases = [(''main'', canvas_locked)], accessOrder = [(''main'', 2000)] \<rparr>"
  by (simp add: markAccessed_def manager_locked_def)

lemma updateElement_unlock_locked:
  "updateElement manager_locked ''main'' ''e1'' unlockPayload env0
     = (Failure ELEMENT_LOCKED, markAccessed manager_locked ''main'' 2000)"
  using locked_rejects_update_and_delete(1)
          [OF getCanvas_manager_locked findIndex_canvas_locked locked_canvas_locked, of unlockPayload env0]
  by (simp add: env0_def)

lemma getElementById_manager_locked:
  "getElementById manager_locked ''main'' ''e1'' = Some elem_locked"
  by (simp add: getElementById_def manager_locked_def canvas_locked_def elem_locked_def elem0_def)

text \<open>
  C3, evaluated where it fails. The lock check of \<^verbatim>\<open>updateElement\<close> applies to the
  update with payload \<^verbatim>\<open>{ locked: false }\<close> as to any other: on a cached canvas with
  the locked element \<^verbatim>\<open>e1\<close> that update is refused with \<^verbatim>\<open>ELEMENT_LOCKED\<close>, the
  tool \<^verbatim>\<open>unlock_elements\<close> answers success with \<^verbatim>\<open>unlockedCount = 0\<close>, the element
  is still locked afterwards, and update and delete are still refused.
\<close>

theorem unlock_elements_leaves_locked:
  "updateElement manager_locked ''main'' ''e1'' (emptyPartial \<lparr> p_locked := Some False \<rparr>) env0
     = (Failure ELEMENT_LOCKED, markAccessed manager_locked ''main'' 2000)
   \<and> unlock_elements manager_locked [(''e1'', env0)]
       = ((True, 0), markAccessed manager_locked ''main'' 2000)
   \<and> getElementById (snd (unlock_elements manager_locked [(''e1'', env0)])) ''main'' ''e1''
       = Some elem_locked
   \<and> el_locked elem_locked
   \<and> fst (updateElement (snd (unlock_elements manager_locked [(''e1'', env0)])) ''main'' ''e1''
            payload_other env0) = Failure ELEMENT_LOCKED
   \<and> fst (deleteElement (snd (unlock_elements manager_locked [(''e1'', env0)])) ''main'' ''e1'' env0)
       = Failure ELEMENT_LOCKED"
proof -
  let ?m1 = "markAccessed manager_locked ''main'' 2000"
  have u: "updateElement manager_locked ''main'' ''e1'' (emptyPartial \<lparr> p_locked := Some False \<rparr>) env0
             = (Failure ELEMENT_LOCKED, ?m1)"
    using updateElement_unlock_locked by (simp add: unlockPayload_def)
  have l: "el_locked elem_locked" by (simp add: elem_locked_def)
  have un: "unlock_elements manager_locked [(''e1'', env0)] = ((True, 0), ?m1)"
    by (simp add: unlock_elements_def CANVAS_ID_def getElementById_manager_locked l u)
  have g1: "getCanvas ?m1 ''main'' env0 = (Some canvas_locked, markAccessed ?m1 ''main'' 2000)"
    by (simp add: getCanvas_def markAccessed_manager_locked env0_def)
  have ge: "getElementById ?m1 ''main'' ''e1'' = Some elem_locked"
    by (simp add: getElementById_def markAccessed_manager_locked canvas_locked_def
        elem_locked_def elem0_def)
  have u2: "fst (updateElement ?m1 ''main'' ''e1'' payload_other env0) = Failure ELEMENT_LOCKED"
    using locked_rejects_update_and_delete(1) [OF g1 findIndex_canvas_locked locked_canvas_locked]
    by simp
  have d2: "fst (deleteElement ?m1 ''main'' ''e1'' env0) = Failure ELEMENT_LOCKED"
    using locked_rejects_update_and_delete(2) [OF g1 findIndex_canvas_locked locked_canvas_locked]
    by simp
  show ?thesis
    using u un ge l u2 d2 by simp
qed

section \<open>The cache of the canvas manager\<close>

lemma map_set_append:
  "k \<notin> fst ` set m \<Longrightarrow> map_set k v m = m @ [(k, v)]"
  by (induction m) auto

lemma map_of_None_iff: "map_of m k = None \<longleftrightarrow> k \<notin> fst ` set m"
  by (simp add: map_of_eq_None_iff)

lemma findOldest_none:
  "\<forall>entry \<in> set xs. t \<le> snd entry \<Longrightarrow> findOldest xs oldestId t = (oldestId, t)"
  by (induction xs) auto

lemma evictLRU_no_older:
  assumes "\<forall>entry \<in> set (accessOrder m). now \<le> snd entry"
  shows "evictLRU m now = m"
  using findOldest_none [OF assms, of None] by (simp add: evictLRU_def)

lemma getCanvas_miss_no_eviction:
  assumes miss: "canvasId \<notin> fst ` set (canvases m)"
    and order: "canvasId \<notin> fst ` set (accessOrder m)"
    and young: "\<forall>entry \<in> set (accessOrder m). now_evict env \<le> snd entry"
    and load: "env_load env = LoadNull" and save: "env_saveNew env"
  shows "getCanvas m canvasId env =
           (Some (createNewCanvas canvasId (now_create env)),
            \<lparr> canvases = canvases m @ [(canvasId, createNewCanvas canvasId (now_create env))],
              accessOrder = accessOrder m @ [(canvasId, now_access env)] \<rparr>)"
proof -
  have none: "map_of (canvases m) canvasId = None"
    using miss by (simp add: map_of_None_iff)
  show ?thesis
    using none load save
    by (simp add: getCanvas_def evictLRU_no_older [OF young] markAccessed_def
        map_set_append [OF miss] map_set_append [OF order])
qed

lemma digit_inj:
  assumes "a < 10" and "b < 10" and "''0123456789'' ! a = ''0123456789'' ! b"
  shows "a = b"
proof -
  have "distinct ''0123456789''" by simp
  moreover have "a < length ''0123456789''" "b < length ''0123456789''" using assms by simp_all
  ultimately show ?thesis using assms(3) by (simp only: nth_eq_iff_index_eq)
qed

lemma canvasName_inj:
  assumes "a < 100" and "b < 100" and "canvasName a = canvasName b"
  shows "a = b"
proof -
  have d: "a div 10 < 10" "b div 10 < 10" using assms by simp_all
  have r: "a mod 10 < 10" "b mod 10 < 10" by simp_all
  from assms(3) have "''0123456789'' ! (a div 10) = ''0123456789'' ! (b div 10)"
    and "''0123456789'' ! (a mod 10) = ''0123456789'' ! (b mod 10)"
    by (simp_all add: canvasName_def)
  then have "a div 10 = b div 10" and "a mod 10 = b mod 10"
    using digit_inj d r by blast+
  then show ?thesis by (metis div_mult_mod_eq)
qed

lemma hundredUpTo_keys:
  "fst ` set (canvases (hundredUpTo k)) = canvasName ` {0..<k}"
  "fst ` set (accessOrder (hundredUpTo k)) = canvasName ` {0..<k}"
  by (simp_all add: hundredUpTo_def image_image)

lemma hundredUpTo_step:
  assumes "k < 100"
  shows "snd (getCanvas (hundredUpTo k) (canvasName k) env_same_ms) = hundredUpTo (Suc k)"
proof -
  have miss: "canvasName k \<notin> canvasName ` {0..<k}"
  proof
    assume "canvasName k \<in> canvasName ` {0..<k}"
    then obtain j where "j < k" and "canvasName k = canvasName j" by auto
    with canvasName_inj [of k j] assms show False by simp
  qed
  have young: "\<forall>entry \<in> set (accessOrder (hundredUpTo k)). now_evict env_same_ms \<le> snd entry"
    by (auto simp: hundredUpTo_def env_same_ms_def)
  have "getCanvas (hundredUpTo k) (canvasName k) env_same_ms =
           (Some (createNewCanvas (canvasName k) (now_create env_same_ms)),
            \<lparr> canvases = canvases (hundredUpTo k)
                 @ [(canvasName k, createNewCanvas (canvasName k) (now_create env_same_ms))],
              accessOrder = accessOrder (hundredUpTo k) @ [(canvasName k, now_access env_same_ms)] \<rparr>)"
    by (rule getCanvas_miss_no_eviction)
       (simp_all add: hundredUpTo_keys miss young, simp_all add: env_same_ms_def)
  then show ?thesis
    by (simp add: hundredUpTo_def env_same_ms_def)
qed

lemma hundred_reachable_upto:
  "k \<le> 100 \<Longrightarrow>
     foldl (\<lambda>m n. snd (getCanvas m (canvasName n) env_same_ms)) emptyManager [0..<k] = hundredUpTo k"
proof (induction k)
  case 0
  then show ?case by (simp add: hundredUpTo_def emptyManager_def)
next
  case (Suc k)
  then show ?case by (simp add: hundredUpTo_step)
qed

text \<open>
  The cache of one hundred canvases is what one hundred calls of \<^verbatim>\<open>getCanvas\<close> for
  distinct new ids leave behind when they run within one millisecond.
\<close>

lemma manager_hundred_reachable:
  "foldl (\<lambda>m n. snd (getCanvas m (canvasName n) env_same_ms)) emptyManager [0..<100]
     = manager_hundred"
  by (simp add: hundred_reachable_upto manager_hundred_def)

lemma new_not_cached:
  "''new'' \<notin> canvasName ` {0..<k}"
  by (auto simp: canvasName_def)

text \<open>
  C6, evaluated where it fails. With the cache at its capacity of \<^verbatim>\<open>MAX_CANVASES\<close>
  documents, all accessed in the millisecond in which \<^verbatim>\<open>evictLRU\<close> reads the clock, no
  timestamp is strictly older than that reading, nothing is evicted, and
  \<^verbatim>\<open>getCanvas\<close> for a new id leaves \<^verbatim>\<open>MAX_CANVASES + 1\<close> distinct documents in the
  cache.
\<close>

theorem cache_exceeds_capacity:
  "length (canvases manager_hundred) = MAX_CANVASES
   \<and> distinct (map fst (canvases (snd (getCanvas manager_hundred ''new'' env_same_ms))))
   \<and> length (canvases (snd (getCanvas manager_hundred ''new'' env_same_ms))) = MAX_CANVASES + 1"
proof -
  have young: "\<forall>entry \<in> set (accessOrder manager_hundred). now_evict env_same_ms \<le> snd entry"
    by (auto simp: manager_hundred_def hundredUpTo_def env_same_ms_def)
  have g: "getCanvas manager_hundred ''new'' env_same_ms =
           (Some (createNewCanvas ''new'' (now_create env_same_ms)),
            \<lparr> canvases = canvases manager_hundred
                 @ [(''new'', createNewCanvas ''new'' (now_create env_same_ms))],
              accessOrder = accessOrder manager_hundred @ [(''new'', now_access env_same_ms)] \<rparr>)"
    by (rule getCanvas_miss_no_eviction)
       (simp_all add: manager_hundred_def hundredUpTo_keys new_not_cached young [unfolded manager_hundred_def],
        simp_all add: env_same_ms_def)
  have len: "length (canvases manager_hundred) = MAX_CANVASES"
    by (simp add: manager_hundred_def hundredUpTo_def MAX_CANVASES_def)
  have inj: "inj_on canvasName {0..<100}"
    by (rule inj_onI) (simp add: canvasName_inj)
  have keys: "map fst (canvases manager_hundred) = map canvasName [0..<100]"
    by (simp add: manager_hundred_def hundredUpTo_def comp_def)
  have dist: "distinct (map fst (canvases manager_hundred))"
    by (simp add: keys distinct_map inj)
  have notin: "''new'' \<notin> set (map fst (canvases manager_hundred))"
    using new_not_cached [of 100] by (simp add: keys)
  show ?thesis
    using len dist notin by (simp add: g)
qed

text \<open>
  What does hold of the cache: a resident id is answered with the cached document and the
  cache is left as it was, and when \<^verbatim>\<open>evictLRU\<close> evicts, it evicts an entry whose
  access timestamp is least.
\<close>

lemma getCanvas_hit:
  assumes "map_of (canvases m) canvasId = Some canvas"
  shows "getCanvas m canvasId env = (Some canvas, markAccessed m canvasId (now_access env))"
    and "canvases (snd (getCanvas m canvasId env)) = canvases m"
  using assms by (simp_all add: getCanvas_def markAccessed_def)

lemma getCanvas_again:
  assumes "getCanvas m canvasId env = (Some canvas, m1)"
  shows "fst (getCanvas m1 canvasId env') = Some canvas"
    and "canvases (snd (getCanvas m1 canvasId env')) = canvases m1"
  using getCanvas_hit [OF getCanvas_cached [OF assms]] by simp_all

lemma findOldest_least:
  assumes "findOldest xs oldestId t = (Some k, t')"
  shows "(oldestId = Some k \<and> t' = t \<or> (k, t') \<in> set xs \<and> t' < t)
       \<and> (\<forall>entry \<in> set xs. t' \<le> snd entry)"
  using assms
proof (induction xs arbitrary: oldestId t)
  case Nil
  then show ?case by simp
next
  case (Cons entry rest)
  show ?case
  proof (cases "snd entry < t")
    case True
    with Cons.prems have "findOldest rest (Some (fst entry)) (snd entry) = (Some k, t')" by simp
    from Cons.IH [OF this] True show ?thesis by (cases entry) auto
  next
    case False
    with Cons.prems have "findOldest rest oldestId t = (Some k, t')" by simp
    from Cons.IH [OF this] False show ?thesis by auto
  qed
qed

lemma evictLRU_evicts_least:
  assumes "evictLRU m now \<noteq> m"
  shows "\<exists>oldestId oldestTime.
           (oldestId, oldestTime) \<in> set (accessOrder m)
         \<and> (\<forall>entry \<in> set (accessOrder m). oldestTime \<le> snd entry)
         \<and> canvases (evictLRU m now) = map_delete oldestId (canvases m)
         \<and> accessOrder (evictLRU m now) = map_delete oldestId (accessOrder m)"
proof -
  obtain r t' where f: "findOldest (accessOrder m) None now = (r, t')"
    by (cases "findOldest (accessOrder m) None now")
  from assms f obtain k where r: "r = Some k" and ev: "evictLRU m now =
      m \<lparr> canvases := map_delete k (canvases m), accessOrder := map_delete k (accessOrder m) \<rparr>"
    by (auto simp: evictLRU_def split: if_splits option.splits)
  from findOldest_least [OF f [unfolded r]]
  have "(k, t') \<in> set (accessOrder m)" and "\<forall>entry \<in> set (accessOrder m). t' \<le> snd entry"
    by auto
  then show ?thesis using ev by auto
qed

text \<open>
  The bound on the cache does hold where the eviction finds a victim: when the cache is
  within capacity, its ids are distinct and non-empty and are the ids of the access
  index, and some cached document was last accessed strictly before the clock reading of
  \<^verbatim>\<open>evictLRU\<close>, then \<^verbatim>\<open>getCanvas\<close> leaves the cache within capacity.
\<close>

lemma findOldest_some:
  assumes "\<exists>entry \<in> set xs. snd entry < t"
  shows "\<exists>k t'. findOldest xs oldestId t = (Some k, t') \<and> (k, t') \<in> set xs"
  using assms
proof (induction xs arbitrary: oldestId t)
  case Nil
  then show ?case by simp
next
  case (Cons entry rest)
  show ?case
  proof (cases "snd entry < t")
    case True
    show ?thesis
    proof (cases "\<exists>e \<in> set rest. snd e < snd entry")
      case older: True
      from Cons.IH [OF older, of "Some (fst entry)"] True show ?thesis by auto
    next
      case False
      then have "\<forall>e \<in> set rest. snd entry \<le> snd e" by auto
      from findOldest_none [OF this, of "Some (fst entry)"] True show ?thesis by simp
    qed
  next
    case False
    with Cons.prems have "\<exists>e \<in> set rest. snd e < t" by auto
    from Cons.IH [OF this, of oldestId] False show ?thesis by auto
  qed
qed

lemma length_map_set: "length (map_set k v m) \<le> Suc (length m)"
  by (induction m) auto

lemma length_map_delete:
  assumes "distinct (map fst m)" and "k \<in> fst ` set m"
  shows "Suc (length (map_delete k m)) = length m"
  using assms
proof (induction m)
  case Nil
  then show ?case by simp
next
  case (Cons entry m)
  show ?case
  proof (cases "fst entry = k")
    case True
    then have "k \<notin> fst ` set m" using Cons.prems(1) by auto
    then have "filter (\<lambda>e. fst e \<noteq> k) m = m" by (rule filter_other_keys)
    with True show ?thesis by (simp add: map_delete_def)
  next
    case False
    with Cons show ?thesis by (auto simp: map_delete_def)
  qed
qed

lemma evictLRU_makes_room:
  assumes "length (canvases m) \<le> MAX_CANVASES"
    and "distinct (map fst (canvases m))"
    and "fst ` set (accessOrder m) = fst ` set (canvases m)"
    and "\<exists>entry \<in> set (accessOrder m). snd entry < now"
    and "[] \<notin> fst ` set (accessOrder m)"
  shows "length (canvases (evictLRU m now)) < MAX_CANVASES"
proof (cases "length (canvases m) < MAX_CANVASES")
  case True
  then show ?thesis by (simp add: evictLRU_def)
next
  case False
  from findOldest_some [OF assms(4), of None] obtain k t' where
    f: "findOldest (accessOrder m) None now = (Some k, t')" and mem: "(k, t') \<in> set (accessOrder m)"
    by blast
  from mem have kin: "k \<in> fst ` set (accessOrder m)" by force
  have ne: "k \<noteq> []"
  proof
    assume "k = []"
    with kin assms(5) show False by simp
  qed
  have "k \<in> fst ` set (canvases m)" using kin assms(3) by simp
  from length_map_delete [OF assms(2) this] assms(1)
  have "length (map_delete k (canvases m)) < MAX_CANVASES" by simp
  then show ?thesis
    using False f ne by (simp add: evictLRU_def)
qed

lemma getCanvas_within_capacity:
  assumes "length (canvases m) \<le> MAX_CANVASES"
    and "distinct (map fst (canvases m))"
    and "fst ` set (accessOrder m) = fst ` set (canvases m)"
    and "\<exists>entry \<in> set (accessOrder m). snd entry < now_evict env"
    and "[] \<notin> fst ` set (accessOrder m)"
  shows "length (canvases (snd (getCanvas m canvasId env))) \<le> MAX_CANVASES"
proof (cases "map_of (canvases m) canvasId")
  case (Some canvas)
  then show ?thesis using assms(1) by (simp add: getCanvas_def markAccessed_def)
next
  case None
  let ?m1 = "evictLRU m (now_evict env)"
  have room: "length (canvases ?m1) < MAX_CANVASES"
    by (rule evictLRU_makes_room [OF assms])
  have ins: "\<And>canvas. length (map_set canvasId canvas (canvases ?m1)) \<le> MAX_CANVASES"
    using room length_map_set [of canvasId _ "canvases ?m1"] by (meson Suc_leI le_trans)
  show ?thesis
    using None room ins
    by (simp add: getCanvas_def markAccessed_def Let_def split: LoadOutcome.splits)
qed

section \<open>The sliding window of the rate limiter\<close>

text \<open>
  C7, evaluated where it fails. With the ceiling \<^verbatim>\<open>maxRequests = 0\<close> the first call
  for a key is admitted and recorded (the branch for a key without an entry returns
  \<^verbatim>\<open>true\<close> before the ceiling is looked at); the ceiling is enforced only from the
  second call on.
\<close>

theorem checkLimit_ceiling_zero_admits:
  "checkLimit limiter_zero Map.empty ''user-1'' 5000 = (True, [''user-1'' \<mapsto> [5000]])
   \<and> fst (checkLimits limiter_zero Map.empty ''user-1'' [5000, 5001, 5002]) = [True, False, False]"
  by (simp add: checkLimit_def limiter_zero_def)

text \<open>
  For a ceiling of at least 1 the window behaves as claimed: of the calls for a fresh key
  that lie within one window of each other, the first \<^verbatim>\<open>maxRequests\<close> are admitted and
  all further ones rejected; a rejected call records nothing; and once the window has
  passed since a recorded timestamp, the next call is admitted.
\<close>

lemma checkLimit_rejected_records_nothing:
  assumes "fst (checkLimit config requests key now) = False"
  shows "\<exists>timestamps. requests key = Some timestamps
         \<and> snd (checkLimit config requests key now) key
             = Some (filter (\<lambda>ts. ts > now - windowMs config) timestamps)"
  using assms by (auto simp: checkLimit_def Let_def split: option.splits if_splits)

lemma fst_checkLimits_Cons:
  "fst (checkLimits config requests key (now # rest)) =
     fst (checkLimit config requests key now)
     # fst (checkLimits config (snd (checkLimit config requests key now)) key rest)"
  by (simp split: prod.splits)

lemma checkLimits_entry:
  assumes "requests key = Some timestamps"
    and "\<forall>now \<in> set calls. \<forall>t \<in> set timestamps. now - windowMs config < t"
    and "\<forall>a \<in> set calls. \<forall>b \<in> set calls. a - windowMs config < b"
  shows "fst (checkLimits config requests key calls) =
           replicate (min (length calls) (nat (maxRequests config - int (length timestamps)))) True
           @ replicate (length calls - nat (maxRequests config - int (length timestamps))) False"
  using assms
proof (induction calls arbitrary: requests timestamps)
  case Nil
  then show ?case by simp
next
  case (Cons now rest)
  have kept: "filter (\<lambda>ts. ts > now - windowMs config) timestamps = timestamps"
    using Cons.prems(2) by (simp add: filter_id_conv)
  show ?case
  proof (cases "maxRequests config \<le> int (length timestamps)")
    case True
    then have step: "checkLimit config requests key now = (False, requests(key \<mapsto> timestamps))"
      using Cons.prems(1) by (simp add: checkLimit_def Let_def kept)
    have "fst (checkLimits config (requests(key \<mapsto> timestamps)) key rest) =
           replicate (min (length rest) (nat (maxRequests config - int (length timestamps)))) True
           @ replicate (length rest - nat (maxRequests config - int (length timestamps))) False"
      using Cons.prems by (intro Cons.IH) simp_all
    with True show ?thesis
      by (simp only: fst_checkLimits_Cons step) simp
  next
    case False
    then have step: "checkLimit config requests key now
                       = (True, requests(key \<mapsto> timestamps @ [now]))"
      using Cons.prems(1) by (simp add: checkLimit_def Let_def kept)
    have "fst (checkLimits config (requests(key \<mapsto> timestamps @ [now])) key rest) =
           replicate (min (length rest) (nat (maxRequests config - int (length (timestamps @ [now]))))) True
           @ replicate (length rest - nat (maxRequests config - int (length (timestamps @ [now])))) False"
      using Cons.prems by (intro Cons.IH) auto
    moreover have "nat (maxRequests config - int (length timestamps))
                     = Suc (nat (maxRequests config - int (length (timestamps @ [now]))))"
      using False by simp
    ultimately show ?thesis
      by (simp only: fst_checkLimits_Cons step) simp
  qed
qed

lemma checkLimits_fresh_key:
  assumes "requests key = None"
    and "1 \<le> maxRequests config"
    and "\<forall>a \<in> set calls. \<forall>b \<in> set calls. a - windowMs config < b"
  shows "fst (checkLimits config requests key calls) =
           replicate (min (length calls) (nat (maxRequests config))) True
           @ replicate (length calls - nat (maxRequests config)) False"
proof (cases calls)
  case Nil
  then show ?thesis by simp
next
  case (Cons now rest)
  have step: "checkLimit config requests key now = (True, requests(key \<mapsto> [now]))"
    using assms(1) by (simp add: checkLimit_def)
  have "fst (checkLimits config (requests(key \<mapsto> [now])) key rest) =
           replicate (min (length rest) (nat (maxRequests config - int (length [now])))) True
           @ replicate (length rest - nat (maxRequests config - int (length [now]))) False"
    using assms(3) Cons by (intro checkLimits_entry) auto
  moreover have "nat (maxRequests config) = Suc (nat (maxRequests config - int (length [now])))"
    using assms(2) by simp
  ultimately show ?thesis
    unfolding Cons by (simp only: fst_checkLimits_Cons step) simp
qed

lemma checkLimit_admits_after_window:
  assumes "requests key = Some timestamps"
    and "int (length timestamps) \<le> maxRequests config"
    and "earliest \<in> set timestamps"
    and "earliest + windowMs config \<le> now"
  shows "fst (checkLimit config requests key now)"
proof -
  have "length (filter (\<lambda>ts. ts > now - windowMs config) timestamps) < length timestamps"
    using assms(3,4) by (intro length_filter_less [of earliest]) auto
  with assms(1,2) show ?thesis
    by (simp add: checkLimit_def Let_def)
qed

section \<open>Broadcast\<close>

lemma map_of_middle:
  assumes "distinct (map fst (pre @ entry # rest))"
  shows "map_of (pre @ entry # rest) (fst entry) = Some (snd entry)"
proof -
  have "fst entry \<notin> fst ` set pre" using assms by auto
  then have "map_of pre (fst entry) = None" by (simp add: map_of_eq_None_iff)
  then show ?thesis by (simp add: map_add_def map_of_append)
qed

lemma map_other_keys:
  assumes "k \<notin> fst ` set xs"
  shows "map (\<lambda>entry. if fst entry = k then f entry else entry) xs = xs"
  using assms by (induction xs) auto

lemma removeConnection_middle:
  assumes "distinct (map fst (pre @ entry # rest))"
  shows "removeConnection (pre @ entry # rest) (fst entry) = pre @ rest"
proof -
  have "fst entry \<notin> fst ` set pre" and "fst entry \<notin> fst ` set rest" using assms by auto
  then show ?thesis
    using map_of_middle [OF assms]
    by (simp add: removeConnection_def filter_other_keys)
qed

lemma updateLastActivity_middle:
  assumes "distinct (map fst (pre @ entry # rest))"
  shows "updateLastActivity (pre @ entry # rest) (fst entry) now
           = pre @ (fst entry, (snd entry) \<lparr> conn_lastActivity := now \<rparr>) # rest"
proof -
  have "fst entry \<notin> fst ` set pre" and "fst entry \<notin> fst ` set rest" using assms by auto
  then show ?thesis
    by (simp add: updateLastActivity_def map_other_keys)
qed

lemma broadcastLoop_suffix:
  assumes "distinct (map fst (pre @ rest))"
  shows "broadcastLoop (map fst rest) (pre @ rest) canvasId messageStr excludeConnectionId now =
           (pre @ map (touch canvasId excludeConnectionId now)
                    (filter (\<lambda>entry. \<not> sendFails canvasId excludeConnectionId entry) rest),
            map (\<lambda>entry. (fst entry, messageStr))
              (filter (\<lambda>entry. eligible canvasId excludeConnectionId entry
                               \<and> \<not> conn_sendThrows (snd entry)) rest))"
  using assms
proof (induction rest arbitrary: pre)
  case Nil
  then show ?case by simp
next
  case (Cons entry rest)
  have look: "map_of (pre @ entry # rest) (fst entry) = Some (snd entry)"
    by (rule map_of_middle [OF Cons.prems])
  have step: "broadcastLoop (map fst (entry # rest)) (pre @ entry # rest) canvasId messageStr
                 excludeConnectionId now =
      (if \<not> eligible canvasId excludeConnectionId entry
       then broadcastLoop (map fst rest) (pre @ entry # rest) canvasId messageStr
              excludeConnectionId now
       else if conn_sendThrows (snd entry)
       then broadcastLoop (map fst rest) (removeConnection (pre @ entry # rest) (fst entry))
              canvasId messageStr excludeConnectionId now
       else (case broadcastLoop (map fst rest)
                    (updateLastActivity (pre @ entry # rest) (fst entry) now)
                    canvasId messageStr excludeConnectionId now of
               (conns', sent) \<Rightarrow> (conns', (fst entry, messageStr) # sent)))"
    unfolding list.map broadcastLoop.simps look option.case eligible_def by auto
  show ?case
  proof (cases "eligible canvasId excludeConnectionId entry")
    case False
    have d: "distinct (map fst ((pre @ [entry]) @ rest))" using Cons.prems by simp
    have "broadcastLoop (map fst (entry # rest)) (pre @ entry # rest) canvasId messageStr
            excludeConnectionId now
          = broadcastLoop (map fst rest) ((pre @ [entry]) @ rest) canvasId messageStr
              excludeConnectionId now"
      using False by (simp only: step) simp
    also note Cons.IH [OF d]
    finally show ?thesis
      using False by (simp add: touch_def sendFails_def)
  next
    case True
    show ?thesis
    proof (cases "conn_sendThrows (snd entry)")
      case thr: True
      have d: "distinct (map fst (pre @ rest))" using Cons.prems by simp
      have "broadcastLoop (map fst (entry # rest)) (pre @ entry # rest) canvasId messageStr
              excludeConnectionId now
            = broadcastLoop (map fst rest) (pre @ rest) canvasId messageStr
                excludeConnectionId now"
        using True thr by (simp only: step removeConnection_middle [OF Cons.prems]) simp
      also note Cons.IH [OF d]
      finally show ?thesis
        using True thr by (simp add: sendFails_def)
    next
      case ok: False
      let ?touched = "(fst entry, (snd entry) \<lparr> conn_lastActivity := now \<rparr>)"
      have d: "distinct (map fst ((pre @ [?touched]) @ rest))" using Cons.prems by simp
      have "broadcastLoop (map fst (entry # rest)) (pre @ entry # rest) canvasId messageStr
              excludeConnectionId now
            = (case broadcastLoop (map fst rest) ((pre @ [?touched]) @ rest) canvasId messageStr
                      excludeConnectionId now of
                 (conns', sent) \<Rightarrow> (conns', (fst entry, messageStr) # sent))"
        using True ok by (simp only: step updateLastActivity_middle [OF Cons.prems]) simp
      also note Cons.IH [OF d]
      finally show ?thesis
        using True ok by (simp add: sendFails_def touch_def)
    qed
  qed
qed

text \<open>
  C8. A broadcast hands one and the same serialized payload to every open connection that
  observes the canvas and is not the excluded one, in registry order; the deliveries that
  succeed are exactly those to the eligible connections whose socket does not throw. A
  connection whose \<^verbatim>\<open>send\<close> throws is removed, and nothing else is removed: every
  other connection stays registered, the ones delivered to with a renewed activity stamp.
\<close>

theorem broadcast_reaches_eligible:
  assumes "distinct (map fst conns)"
  shows "snd (broadcastToCanvas stringify conns canvasId message excludeConnectionId now)
           = map (\<lambda>entry. (fst entry, stringify message))
               (filter (\<lambda>entry. eligible canvasId excludeConnectionId entry
                                \<and> \<not> conn_sendThrows (snd entry)) conns)
       \<and> fst (broadcastToCanvas stringify conns canvasId message excludeConnectionId now)
           = map (touch canvasId excludeConnectionId now)
               (filter (\<lambda>entry. \<not> sendFails canvasId excludeConnectionId entry) conns)"
proof -
  have "distinct (map fst ([] @ conns))" using assms by simp
  from broadcastLoop_suffix [OF this] show ?thesis
    by (simp add: broadcastToCanvas_def)
qed

theorem broadcast_reaches_eligible_witness:
  "distinct (map fst conns_six)
   \<and> snd (broadcastToCanvas (\<lambda>m. ''msg:'' @ m) conns_six ''main'' ''element_created''
            (Some ''conn2'') 9000)
       = [(''conn1'', ''msg:element_created''), (''conn4'', ''msg:element_created'')]
   \<and> map fst (fst (broadcastToCanvas (\<lambda>m. ''msg:'' @ m) conns_six ''main'' ''element_created''
            (Some ''conn2'') 9000))
       = [''conn1'', ''conn2'', ''conn4'', ''conn5'', ''conn6'']"
proof -
  have d: "distinct (map fst conns_six)" by (simp add: conns_six_def)
  from broadcast_reaches_eligible [OF d, of "\<lambda>m. ''msg:'' @ m" "''main''" "''element_created''"
      "Some ''conn2''" 9000]
  show ?thesis
    using d by (simp add: conns_six_def ws_def eligible_def sendFails_def touch_def)
qed

section \<open>Coalescing of saves\<close>

lemma saveAll_snoc:
  "saveAll st (calls @ [call]) =
     saveCanvas (saveAll st calls) (fst call) (fst (snd call)) (snd (snd call))"
  by (simp add: saveAll_def)

lemma saveAll_frame:
  "files (saveAll st calls) = files st"
  "lastSave (saveAll st calls) = lastSave st"
  "dataDir (saveAll st calls) = dataDir st"
  by (induction calls rule: rev_induct) (simp_all add: saveAll_snoc saveCanvas_def Let_def, simp_all add: saveAll_def)

lemma saveAll_pending:
  assumes "calls \<noteq> []"
    and "\<forall>call \<in> set calls. cv_id (fst call) = canvasId"
    and "pendingSaves st canvasId = None"
  shows "\<exists>due. pendingSaves (saveAll st calls) canvasId =
           Some \<lparr> ps_canvas = fst (last calls),
                  ps_promises = map (\<lambda>call. fst (snd call)) calls,
                  ps_rejects = map (\<lambda>call. fst (snd call)) calls,
                  ps_timeoutId = Some due \<rparr>"
  using assms
proof (induction calls rule: rev_induct)
  case Nil
  then show ?case by simp
next
  case (snoc call calls)
  have id: "cv_id (fst call) = canvasId" using snoc.prems(2) by simp
  show ?case
  proof (cases "calls = []")
    case True
    then show ?thesis
      using snoc.prems(3) id by (simp add: saveAll_def saveCanvas_def Let_def)
  next
    case False
    with snoc obtain due where
      "pendingSaves (saveAll st calls) canvasId =
           Some \<lparr> ps_canvas = fst (last calls),
                  ps_promises = map (\<lambda>call. fst (snd call)) calls,
                  ps_rejects = map (\<lambda>call. fst (snd call)) calls,
                  ps_timeoutId = Some due \<rparr>"
      by auto
    then show ?thesis
      using id by (simp add: saveAll_snoc saveCanvas_def Let_def)
  qed
qed

lemma runStorage_saves:
  "runStorage st (map (\<lambda>call. SaveCall (fst call) (fst (snd call)) (snd (snd call))) calls @ evs)
     = runStorage (saveAll st calls) evs"
proof (induction calls arbitrary: st)
  case Nil
  then show ?case by (simp add: saveAll_def)
next
  case (Cons call calls)
  have "saveAll st (call # calls)
          = saveAll (saveCanvas st (fst call) (fst (snd call)) (snd (snd call))) calls"
    by (simp add: saveAll_def)
  then show ?case
    using Cons.IH by (simp add: storageStep_def split: option.splits)
qed



text \<open>
  When the timer cannot fire in between: if the previous write for the id completed at
  \<open>lastWrite\<close> and every call is issued before \<open>lastWrite + saveThrottleMs\<close>, each call
  re-arms the timer for exactly \<open>lastWrite + saveThrottleMs\<close>, later than every call.
\<close>

lemma timerDue_saveCanvas:
  "timerDue (saveCanvas st canvas caller now) (cv_id canvas) =
     Some (now + max 0 (saveThrottleMs
             - (now - (case lastSave st (cv_id canvas) of None \<Rightarrow> 0 | Some t \<Rightarrow> t))))"
  by (simp add: timerDue_def saveCanvas_def Let_def split: option.splits)

lemma timerDue_within_throttle:
  assumes "calls \<noteq> []"
    and "\<forall>call \<in> set calls. cv_id (fst call) = canvasId"
    and "lastSave st canvasId = Some lastWrite"
    and "\<forall>call \<in> set calls. snd (snd call) < lastWrite + saveThrottleMs"
  shows "timerDue (saveAll st calls) canvasId = Some (lastWrite + saveThrottleMs)"
proof -
  obtain xs call where c: "calls = xs @ [call]"
    using assms(1) by (metis rev_exhaust)
  have id: "cv_id (fst call) = canvasId" and t: "snd (snd call) < lastWrite + saveThrottleMs"
    using assms(2,4) c by simp_all
  have "timerDue (saveCanvas (saveAll st xs) (fst call) (fst (snd call)) (snd (snd call))) canvasId
          = Some (lastWrite + saveThrottleMs)"
    using timerDue_saveCanvas [of "saveAll st xs" "fst call" "fst (snd call)" "snd (snd call)"] t
    unfolding id by (simp add: saveAll_frame assms(3))
  then show ?thesis
    by (simp add: c saveAll_snoc)
qed


lemma timer_cannot_fire_between:
  assumes "calls \<noteq> []"
    and "\<forall>call \<in> set calls. cv_id (fst call) = canvasId"
    and "pendingSaves st canvasId = None"
    and "lastSave st canvasId = Some lastWrite"
    and "\<forall>call \<in> set calls. snd (snd call) < lastWrite + saveThrottleMs"
    and "t < lastWrite + saveThrottleMs"
  shows "runStorage st (map asSaveCall calls @ [TimerFires canvasId t io]) = None"
proof -
  from saveAll_pending [OF assms(1,2,3)] obtain d p where
    p: "pendingSaves (saveAll st calls) canvasId = Some p" and pd: "ps_timeoutId p = Some d"
    by fastforce
  have "timerDue (saveAll st calls) canvasId = Some (lastWrite + saveThrottleMs)"
    by (rule timerDue_within_throttle [OF assms(1,2,4,5)])
  then have d: "d = lastWrite + saveThrottleMs"
    using p pd by (simp add: timerDue_def)
  have "runStorage st (map asSaveCall calls @ [TimerFires canvasId t io])
          = runStorage (saveAll st calls) [TimerFires canvasId t io]"
    using runStorage_saves [of st calls] by (simp add: asSaveCall_def [abs_def])
  also have "\<dots> = None"
    using assms(6) by (simp add: storageStep_def p pd d)
  finally show ?thesis .
qed




text \<open>
  The proviso on the clean-up: when the rename fails and the \<^verbatim>\<open>unlink\<close> of the
  temporary file fails as well (its error is ignored by the source), the temporary file
  stays.
\<close>

lemma temp_file_left_when_unlink_fails:
  assumes "pendingSaves st canvasId = Some p" and "cv_id (ps_canvas p) = canvasId"
    and "io_fault io = RenameFails" and "io_unlinkFails io"
  shows "files (fst (executeSave st canvasId io)) (getCanvasPath st canvasId @ ''.tmp'')
           = Some (ps_canvas p)"
  using assms by (simp add: executeSave_def Let_def unlinkTemp_def getCanvasPath_def)

end
